theory Spec2Isabelle
  imports Main
begin

section \<open>Call-path logging decorator of \<^verbatim>\<open>facefusion/utilities.py\<close>\<close>

text \<open>
  The module has two functions: \<^verbatim>\<open>format_value\<close>, which renders a value as a short
  string, and the decorator \<^verbatim>\<open>log_call_path\<close>, whose inner \<^verbatim>\<open>wrapper\<close> logs an
  entry block, installs a trace function, calls the wrapped function and logs a
  completion or an error block to two files.

  Python raises are values here: a computation that may raise has a result of type
  \<open>exn + 'a\<close>, with \<open>Inl\<close> for the exception. Everything the wrapper does to the
  process (files, console, the trace function of \<^verbatim>\<open>sys.settrace\<close>) is a field of an
  explicit \<open>world\<close> that is passed through and returned, also when an exception
  propagates. Line numbers are those of \<^verbatim>\<open>facefusion/utilities.py\<close>; the interpreter
  is CPython 3.11.
\<close>

subsection \<open>Text primitives of the Python runtime\<close>

text \<open>
  A \<open>char\<close> stands for a code point below 256. The characters that cannot be
  written inside a string literal are named.
\<close>

definition dquote :: char where "dquote = CHR 0x22"
definition squote :: char where "squote = CHR 0x27"
definition backslash :: char where "backslash = CHR 0x5C"
definition newline :: char where "newline = CHR 0x0A"

definition digit_char :: "nat \<Rightarrow> char" where
  "digit_char d = ''0123456789abcdef'' ! (d mod 16)"

text \<open>Decimal text of a natural number and of an integer, as \<^verbatim>\<open>str(int)\<close> gives it.\<close>

function show_nat :: "nat \<Rightarrow> string" where
  "show_nat n = (if n < 10 then [digit_char n] else show_nat (n div 10) @ [digit_char (n mod 10)])"
  by pat_completeness auto
termination
  by (relation "measure id") auto

declare show_nat.simps [simp del]

definition show_int :: "int \<Rightarrow> string" where
  "show_int i = (if i < 0 then CHR ''-'' # show_nat (nat (- i)) else show_nat (nat i))"

text \<open>\<^verbatim>\<open>sep.join(parts)\<close>.\<close>

fun str_join :: "string \<Rightarrow> string list \<Rightarrow> string" where
  "str_join sep [] = []"
| "str_join sep [p] = p"
| "str_join sep (p # q # ps) = p @ sep @ str_join sep (q # ps)"

text \<open>\<^verbatim>\<open>s.split('/')[-1]\<close>: the part of \<open>s\<close> after its last slash.\<close>

definition basename :: "string \<Rightarrow> string" where
  "basename s = rev (takeWhile (\<lambda>c. c \<noteq> CHR ''/'') (rev s))"

text \<open>\<^verbatim>\<open>s.startswith('_')\<close>.\<close>

definition startswith_underscore :: "string \<Rightarrow> bool" where
  "startswith_underscore s = (case s of [] \<Rightarrow> False | c # _ \<Rightarrow> c = CHR ''_'')"

definition hex2 :: "nat \<Rightarrow> string" where
  "hex2 n = [digit_char (n div 16), digit_char (n mod 16)]"

text \<open>
  \<^verbatim>\<open>repr\<close> of a \<^verbatim>\<open>str\<close>: single quotes, unless the text holds a single quote and
  no double quote; the quote and the backslash are escaped, tab, newline and carriage
  return have their short escapes, and a code point that is not printable becomes
  \<^verbatim>\<open>\xNN\<close>. Below 256 the printable code points are 0x20 to 0x7E and 0xA1 to 0xFF
  without 0xAD.
\<close>

definition printable :: "char \<Rightarrow> bool" where
  "printable c =
     (let n = (of_char c :: nat) in
      if n < 0x20 then False
      else if n < 0x7F then True
      else if n < 0xA1 then False
      else if n = 0xAD then False
      else True)"

definition repr_char :: "char \<Rightarrow> char \<Rightarrow> string" where
  "repr_char q c =
     (if c = q then [backslash, c]
      else if c = backslash then [backslash, c]
      else if c = CHR 0x09 then [backslash, CHR ''t'']
      else if c = CHR 0x0A then [backslash, CHR ''n'']
      else if c = CHR 0x0D then [backslash, CHR ''r'']
      else if printable c then [c]
      else [backslash, CHR ''x''] @ hex2 (of_char c))"

definition repr_str :: "string \<Rightarrow> string" where
  "repr_str s =
     (let q = (if squote \<in> set s \<and> dquote \<notin> set s then dquote else squote)
      in [q] @ concat (map (repr_char q) s) @ [q])"

text \<open>\<^verbatim>\<open>repr\<close> of a list and of a tuple, from the \<^verbatim>\<open>repr\<close> of the elements.\<close>

definition list_text :: "string list \<Rightarrow> string" where
  "list_text rs = ''['' @ str_join '', '' rs @ '']''"

definition tuple_text :: "string list \<Rightarrow> string" where
  "tuple_text rs =
     (case rs of
        [] \<Rightarrow> ''()''
      | [r] \<Rightarrow> ''('' @ r @ '',)''
      | _ \<Rightarrow> ''('' @ str_join '', '' rs @ '')'')"

subsection \<open>Exceptions and values\<close>

text \<open>
  An exception: whether its class derives from \<^verbatim>\<open>Exception\<close> (every \<^verbatim>\<open>except\<close> clause of
  the module is \<^verbatim>\<open>except Exception\<close>, which lets \<^verbatim>\<open>KeyboardInterrupt\<close>,
  \<^verbatim>\<open>SystemExit\<close> and \<^verbatim>\<open>GeneratorExit\<close> through), the name of its class, and what
  \<^verbatim>\<open>str(e)\<close> does: it returns a text, or raises in its turn.
\<close>

datatype exn = Exn (is_Exception: bool) (exn_class: string) (exn_str: "exn + string")

text \<open>
  The first exception of a sequence of evaluations made in order, or all their results:
  a comprehension stops at the first element that raises.
\<close>

fun in_order :: "(exn + 'a) list \<Rightarrow> exn + 'a list" where
  "in_order [] = Inr []"
| "in_order (Inl e # rs) = Inl e"
| "in_order (Inr x # rs) = (case in_order rs of Inl e \<Rightarrow> Inl e | Inr xs \<Rightarrow> Inr (x # xs))"

text \<open>
  Python has no static types: \<^verbatim>\<open>format_value\<close> takes any object and finds out what it
  is by asking. A value is therefore given by what each operation the module applies to
  it does, and each of them can raise (a class can override any of them):
  the three \<^verbatim>\<open>isinstance\<close> tests, \<^verbatim>\<open>hasattr(value, '__dict__')\<close> (which answers
  \<^verbatim>\<open>False\<close> on \<^verbatim>\<open>AttributeError\<close> and lets every other exception through), the texts
  \<^verbatim>\<open>{value.shape}\<close> and \<^verbatim>\<open>{value.dtype}\<close>, \<^verbatim>\<open>type(value).__name__\<close>, \<^verbatim>\<open>len(value)\<close>,
  \<^verbatim>\<open>list(value.keys())\<close> with each key given by what \<^verbatim>\<open>repr\<close> does on it,
  \<^verbatim>\<open>value.__class__.__name__\<close>, \<^verbatim>\<open>str(value)\<close> and \<^verbatim>\<open>repr(value)\<close>.
  The tests are independent fields: an instance of a subclass of \<^verbatim>\<open>dict\<close> has a
  \<^verbatim>\<open>__dict__\<close>, an \<^verbatim>\<open>ArgumentParser\<close> too, and the order of the tests decides.
\<close>

record pyval =
  isinstance_ArgumentParser :: "exn + bool"
  isinstance_ndarray :: "exn + bool"
  shape_text :: "exn + string"
  dtype_text :: "exn + string"
  isinstance_list_tuple :: "exn + bool"
  type_name :: "exn + string"
  len_of :: "exn + nat"
  isinstance_dict :: "exn + bool"
  keys_of :: "exn + (exn + string) list"
  hasattr_dict :: "exn + bool"
  class_name :: "exn + string"
  str_of :: "exn + string"
  repr_of :: "exn + string"

subsection \<open>\<^verbatim>\<open>format_value\<close> (lines 13 to 25)\<close>

text \<open>
  The \<^verbatim>\<open>if\<close> chain in the order of the source. Whatever an operation raises leaves the
  function: it has no handler. In the two f-strings with two fields the fields are
  evaluated from left to right.
\<close>

definition format_value :: "pyval \<Rightarrow> exn + string" where
  "format_value v =
     (case isinstance_ArgumentParser v of
        Inl e \<Rightarrow> Inl e
      | Inr True \<Rightarrow> Inr ''ArgumentParser()''
      | Inr False \<Rightarrow>
     (case isinstance_ndarray v of
        Inl e \<Rightarrow> Inl e
      | Inr True \<Rightarrow>
          (case shape_text v of
             Inl e \<Rightarrow> Inl e
           | Inr sh \<Rightarrow>
               (case dtype_text v of
                  Inl e \<Rightarrow> Inl e
                | Inr dt \<Rightarrow> Inr (''ndarray(shape='' @ sh @ '', dtype='' @ dt @ '')'')))
      | Inr False \<Rightarrow>
     (case isinstance_list_tuple v of
        Inl e \<Rightarrow> Inl e
      | Inr True \<Rightarrow>
          (case type_name v of
             Inl e \<Rightarrow> Inl e
           | Inr tn \<Rightarrow>
               (case len_of v of
                  Inl e \<Rightarrow> Inl e
                | Inr n \<Rightarrow> Inr (tn @ ''(len='' @ show_nat n @ '')'')))
      | Inr False \<Rightarrow>
     (case isinstance_dict v of
        Inl e \<Rightarrow> Inl e
      | Inr True \<Rightarrow>
          (case keys_of v of
             Inl e \<Rightarrow> Inl e
           | Inr ks \<Rightarrow>
               (case in_order ks of
                  Inl e \<Rightarrow> Inl e
                | Inr rs \<Rightarrow> Inr (''dict(keys='' @ list_text rs @ '')'')))
      | Inr False \<Rightarrow>
     (case hasattr_dict v of
        Inl e \<Rightarrow> Inl e
      | Inr True \<Rightarrow>
          (case class_name v of
             Inl e \<Rightarrow> Inl e
           | Inr cn \<Rightarrow> Inr (cn @ ''()''))
      | Inr False \<Rightarrow> str_of v)))))"

subsection \<open>Some values\<close>

text \<open>
  \<^verbatim>\<open>str\<close> and \<^verbatim>\<open>repr\<close> of an \<^verbatim>\<open>int\<close> raise \<^verbatim>\<open>ValueError\<close> when the number has more
  decimal digits than \<^verbatim>\<open>sys.get_int_max_str_digits()\<close>, 4300 unless it was changed.
\<close>

definition int_max_str_digits :: nat where
  "int_max_str_digits = 4300"

definition int_limit_error :: exn where
  "int_limit_error =
     Exn True ''ValueError''
       (Inr ''Exceeds the limit (4300 digits) for integer string conversion; use sys.set_int_max_str_digits() to increase the limit'')"

definition int_text :: "int \<Rightarrow> exn + string" where
  "int_text i =
     (if int_max_str_digits < length (show_nat (nat \<bar>i\<bar>)) then Inl int_limit_error
      else Inr (show_int i))"

text \<open>
  A value of a built-in type that is none of the shapes tested for and has no
  \<^verbatim>\<open>__dict__\<close>, given by the name of its type and by its \<^verbatim>\<open>str\<close> and \<^verbatim>\<open>repr\<close>.
\<close>

definition plain :: "string \<Rightarrow> exn + string \<Rightarrow> exn + string \<Rightarrow> pyval" where
  "plain tn s r =
     \<lparr>isinstance_ArgumentParser = Inr False, isinstance_ndarray = Inr False,
      shape_text = Inl (Exn True ''AttributeError'' (Inr (squote # tn @ [squote] @ '' object has no attribute '' @ [squote] @ ''shape'' @ [squote]))),
      dtype_text = Inl (Exn True ''AttributeError'' (Inr (squote # tn @ [squote] @ '' object has no attribute '' @ [squote] @ ''dtype'' @ [squote]))),
      isinstance_list_tuple = Inr False, type_name = Inr tn,
      len_of = Inl (Exn True ''TypeError'' (Inr (''object of type '' @ [squote] @ tn @ [squote] @ '' has no len()''))),
      isinstance_dict = Inr False,
      keys_of = Inl (Exn True ''AttributeError'' (Inr (squote # tn @ [squote] @ '' object has no attribute '' @ [squote] @ ''keys'' @ [squote]))),
      hasattr_dict = Inr False, class_name = Inr tn, str_of = s, repr_of = r\<rparr>"

definition py_int :: "int \<Rightarrow> pyval" where
  "py_int i = plain ''int'' (int_text i) (int_text i)"

definition py_text :: "string \<Rightarrow> pyval" where
  "py_text s = plain ''str'' (Inr s) (Inr (repr_str s))"

text \<open>A \<^verbatim>\<open>tuple\<close> and a \<^verbatim>\<open>dict\<close> of the built-in types, from their elements.\<close>

definition py_tuple :: "pyval list \<Rightarrow> pyval" where
  "py_tuple xs =
     (plain ''tuple''
        (case in_order (map repr_of xs) of Inl e \<Rightarrow> Inl e | Inr rs \<Rightarrow> Inr (tuple_text rs))
        (case in_order (map repr_of xs) of Inl e \<Rightarrow> Inl e | Inr rs \<Rightarrow> Inr (tuple_text rs)))
     \<lparr>isinstance_list_tuple := Inr True, len_of := Inr (length xs)\<rparr>"

definition dict_repr :: "(pyval \<times> pyval) list \<Rightarrow> exn + string" where
  "dict_repr kvs =
     (case in_order (map (\<lambda>(k, v). case repr_of k of
                                        Inl e \<Rightarrow> Inl e
                                      | Inr rk \<Rightarrow>
                                          (case repr_of v of
                                             Inl e \<Rightarrow> Inl e
                                           | Inr rv \<Rightarrow> Inr (rk @ '': '' @ rv))) kvs) of
        Inl e \<Rightarrow> Inl e
      | Inr rs \<Rightarrow> Inr (''{'' @ str_join '', '' rs @ ''}''))"

definition py_dict :: "(pyval \<times> pyval) list \<Rightarrow> pyval" where
  "py_dict kvs =
     (plain ''dict'' (dict_repr kvs) (dict_repr kvs))
     \<lparr>len_of := Inr (length kvs), isinstance_dict := Inr True,
      keys_of := Inr (map (\<lambda>(k, v). repr_of k) kvs)\<rparr>"

text \<open>The mapping \<^verbatim>\<open>{"a": 1, "b": 2}\<close>.\<close>

definition dict_ab :: pyval where
  "dict_ab = py_dict [(py_text ''a'', py_int 1), (py_text ''b'', py_int 2)]"

text \<open>
  An instance of \<^verbatim>\<open>class Thing: __slots__ = ()\<close> whose \<^verbatim>\<open>__str__\<close> and \<^verbatim>\<open>__repr__\<close>
  raise \<^verbatim>\<open>RuntimeError('no text')\<close>.
\<close>

definition no_text :: exn where
  "no_text = Exn True ''RuntimeError'' (Inr ''no text'')"

definition unprintable :: pyval where
  "unprintable = plain ''Thing'' (Inl no_text) (Inl no_text)"

text \<open>
  An instance of \<^verbatim>\<open>class Stop: __slots__ = ()\<close> whose \<^verbatim>\<open>__str__\<close> and \<^verbatim>\<open>__repr__\<close>
  raise \<^verbatim>\<open>KeyboardInterrupt()\<close>, which is not an \<^verbatim>\<open>Exception\<close>.
\<close>

definition interrupt :: exn where
  "interrupt = Exn False ''KeyboardInterrupt'' (Inr [])"

definition interrupted :: pyval where
  "interrupted = plain ''Stop'' (Inl interrupt) (Inl interrupt)"

text \<open>The mapping \<^verbatim>\<open>{Thing(): 1}\<close>, with that instance as its key.\<close>

definition dict_thing :: pyval where
  "dict_thing = py_dict [(unprintable, py_int 1)]"

text \<open>
  An instance of \<^verbatim>\<open>class Options(dict)\<close>: a mapping with a \<^verbatim>\<open>__dict__\<close> of its own.
\<close>

definition options_ab :: pyval where
  "options_ab =
     dict_ab\<lparr>type_name := Inr ''Options'', hasattr_dict := Inr True, class_name := Inr ''Options''\<rparr>"

subsection \<open>The process: files, console, trace function\<close>

text \<open>
  \<^verbatim>\<open>sys.settrace\<close> holds one trace function for the whole thread: \<open>None\<close>, the
  wrapper's \<^verbatim>\<open>trace_calls\<close>, or a function of someone else.
\<close>

datatype hook = Trace_calls | Foreign_hook

text \<open>
  What a system call raises when it fails: an \<^verbatim>\<open>OSError\<close>, a \<^verbatim>\<open>UnicodeEncodeError\<close>,
  given by the name of its class and its message. These are exceptions of the library,
  deriving from \<^verbatim>\<open>Exception\<close> and with a working \<^verbatim>\<open>str\<close>.
\<close>

datatype fault = Fault string string

fun raised :: "fault \<Rightarrow> exn" where
  "raised (Fault c m) = Exn True c (Inr m)"

text \<open>
  The world the wrapper acts on. \<open>fs_files\<close> gives the content of each file that
  exists, \<open>console\<close> the lines printed so far, \<open>trace_fn\<close> the installed trace
  function. \<open>io_faults\<close> is what the system will answer to the next calls that can
  fail, one entry for each call in the order of the calls: \<^verbatim>\<open>os.makedirs\<close>, \<^verbatim>\<open>open\<close>,
  each \<^verbatim>\<open>print\<close>, each \<^verbatim>\<open>f.write\<close> and the closing of the file at the end of a
  \<^verbatim>\<open>with\<close> block. \<open>Some f\<close> is a call that raises, \<open>None\<close> one that goes through;
  after the end of the list every call goes through. What was written before a call
  raised stays in the file. Paths are POSIX paths, as the \<^verbatim>\<open>split('/')\<close> of the source
  takes them to be.
\<close>

record world =
  fs_dirs :: "string set"
  fs_files :: "string \<Rightarrow> string option"
  console :: "string list"
  trace_fn :: "hook option"
  io_faults :: "fault option list"

definition take_fault :: "world \<Rightarrow> fault option \<times> world" where
  "take_fault w =
     (case io_faults w of
        [] \<Rightarrow> (None, w)
      | f # fs \<Rightarrow> (f, w\<lparr>io_faults := fs\<rparr>))"

text \<open>Lines 32 and 33: \<^verbatim>\<open>if not os.path.exists(log_dir): os.makedirs(log_dir)\<close>.\<close>

definition ensure_log_dir :: "string \<Rightarrow> world \<Rightarrow> (exn + unit) \<times> world" where
  "ensure_log_dir d w =
     (if d \<in> fs_dirs w then (Inr (), w)
      else
        (case take_fault w of
           (Some f, w') \<Rightarrow> (Inl (raised f), w')
         | (None, w') \<Rightarrow> (Inr (), w'\<lparr>fs_dirs := insert d (fs_dirs w')\<rparr>)))"

definition written_text :: "string list \<Rightarrow> string" where
  "written_text ls = concat (map (\<lambda>l. l @ [newline]) ls)"

definition file_text :: "world \<Rightarrow> string \<Rightarrow> string" where
  "file_text w p = (case fs_files w p of None \<Rightarrow> [] | Some c \<Rightarrow> c)"

text \<open>
  The inner loop of the three writing loops (lines 80 to 82, 143 to 145, 163 to 165):
  \<^verbatim>\<open>print(line)\<close>, then \<^verbatim>\<open>f.write(line + '\n')\<close>. The first call that raises ends it,
  with the earlier lines printed and written.
\<close>

fun write_lines :: "string \<Rightarrow> string list \<Rightarrow> world \<Rightarrow> (exn + unit) \<times> world" where
  "write_lines p [] w = (Inr (), w)"
| "write_lines p (l # ls) w =
     (case take_fault w of
        (Some f, w1) \<Rightarrow> (Inl (raised f), w1)
      | (None, w1) \<Rightarrow>
          (case take_fault (w1\<lparr>console := console w1 @ [l]\<rparr>) of
             (Some f, w2) \<Rightarrow> (Inl (raised f), w2)
           | (None, w2) \<Rightarrow>
               write_lines p ls
                 (w2\<lparr>fs_files := (fs_files w2)(p \<mapsto> file_text w2 p @ l @ [newline])\<rparr>)))"

text \<open>
  The \<^verbatim>\<open>with open(file_path, 'a', encoding='utf-8') as f\<close> block (lines 79, 142 and
  162): \<^verbatim>\<open>open\<close> creates the file if there is none; the file is closed when the block is
  left, by its end or by an exception, and an exception of the closing takes the place
  of the one that left the block.
\<close>

definition append_lines :: "string \<Rightarrow> string list \<Rightarrow> world \<Rightarrow> (exn + unit) \<times> world" where
  "append_lines p ls w =
     (case take_fault w of
        (Some f, w1) \<Rightarrow> (Inl (raised f), w1)
      | (None, w1) \<Rightarrow>
          (case write_lines p ls (w1\<lparr>fs_files := (fs_files w1)(p \<mapsto> file_text w1 p)\<rparr>) of
             (r, w2) \<Rightarrow>
               (case take_fault w2 of
                  (Some f, w3) \<Rightarrow> (Inl (raised f), w3)
                | (None, w3) \<Rightarrow> (r, w3))))"

text \<open>
  The loop \<^verbatim>\<open>for file_path in [log_file, func_log_file]\<close> (lines 78, 141 and 161): no
  handler inside, so the first file that raises ends the loop.
\<close>

fun write_logs :: "string list \<Rightarrow> string list \<Rightarrow> world \<Rightarrow> (exn + unit) \<times> world" where
  "write_logs [] ls w = (Inr (), w)"
| "write_logs (p # ps) ls w =
     (case append_lines p ls w of
        (Inl e, w') \<Rightarrow> (Inl e, w')
      | (Inr u, w') \<Rightarrow> write_logs ps ls w')"

subsection \<open>The wrapped function and what the wrapper reads from its surroundings\<close>

text \<open>
  A frame as \<^verbatim>\<open>trace_calls\<close> sees it: the name and file of its code, and what
  \<^verbatim>\<open>inspect.getargvalues\<close> gives (the names of the positional parameters and the
  locals) or raises.
\<close>

datatype event = Call | Line | Return | Raised | Opcode

record frame =
  co_name :: string
  co_filename :: string
  argvalues :: "exn + (string list \<times> (string \<Rightarrow> pyval option))"

text \<open>
  One run of the wrapped function: the events the interpreter delivered to the trace
  function while it ran, what it returned or raised, and the world it left. The first
  event of a function written in Python is the \<^verbatim>\<open>call\<close> of its own frame, since the
  trace function is installed before the call.
\<close>

record run =
  run_traced :: "(event \<times> frame) list"
  run_outcome :: "exn + pyval"
  run_world :: world

text \<open>
  The wrapped callable, a function: its \<^verbatim>\<open>__name__\<close>, what \<^verbatim>\<open>inspect.getfile\<close> gives
  for it or raises (\<^verbatim>\<open>TypeError\<close> for a built-in), and what a call of it does in a given
  world.
\<close>

record pyfunc =
  func_name :: string
  func_getfile :: "exn + string"
  func_body :: "pyval list \<Rightarrow> (string \<times> pyval) list \<Rightarrow> world \<Rightarrow> run"

text \<open>
  What one invocation reads from the clock and the interpreter: the two renderings of
  \<^verbatim>\<open>datetime.now()\<close>, the calling frame (name and file of its code, if there is one),
  \<^verbatim>\<open>inspect.stack()\<close> as pairs of file name and function, the elapsed time as
  \<^verbatim>\<open>{duration:.4f}\<close> prints it on each of the two paths, and
  \<^verbatim>\<open>traceback.format_exc()\<close> for the exception being handled.
\<close>

record env =
  today :: string
  current_time :: string
  caller_frame :: "(string \<times> string) option"
  stack :: "(string \<times> string) list"
  duration_done :: string
  duration_failed :: string
  format_exc :: "exn \<Rightarrow> string"

subsection \<open>The entry block (lines 36 to 75)\<close>

definition banner :: string where
  "banner = replicate 100 (CHR ''='')"

definition log_file :: "env \<Rightarrow> string" where
  "log_file env = ''logs/facefusion_'' @ today env @ ''.log''"

definition func_log_file :: "env \<Rightarrow> pyfunc \<Rightarrow> string" where
  "func_log_file env func = ''logs/facefusion_'' @ func_name func @ ''_'' @ today env @ ''.log''"

text \<open>The list the three writing loops run over.\<close>

definition log_paths :: "env \<Rightarrow> pyfunc \<Rightarrow> string list" where
  "log_paths env func = [log_file env, func_log_file env func]"

definition caller_name :: "env \<Rightarrow> string" where
  "caller_name env = (case caller_frame env of None \<Rightarrow> ''unknown'' | Some (n, f) \<Rightarrow> n)"

definition caller_file :: "env \<Rightarrow> string" where
  "caller_file env = (case caller_frame env of None \<Rightarrow> ''unknown'' | Some (n, f) \<Rightarrow> basename f)"

definition call_stack :: "env \<Rightarrow> string" where
  "call_stack env =
     str_join '' -> '' (map (\<lambda>(file, fn). basename file @ ''::'' @ fn) (tl (stack env)))"

text \<open>A \<^verbatim>\<open>dict\<close> with text keys and values: its items in insertion order.\<close>

fun dict_set :: "'k \<Rightarrow> 'v \<Rightarrow> ('k \<times> 'v) list \<Rightarrow> ('k \<times> 'v) list" where
  "dict_set k v [] = [(k, v)]"
| "dict_set k v ((k', v') # d) =
     (if k' = k then (k', v) # d else (k', v') # dict_set k v d)"

definition dict_of_items :: "('k \<times> 'v) list \<Rightarrow> ('k \<times> 'v) list" where
  "dict_of_items items = foldl (\<lambda>d (k, v). dict_set k v d) [] items"

definition dict_text :: "(string \<times> string) list \<Rightarrow> string" where
  "dict_text d = ''{'' @ str_join '', '' (map (\<lambda>(k, v). repr_str k @ '': '' @ repr_str v) d) @ ''}''"

text \<open>Lines 59 and 60, the body of the \<^verbatim>\<open>try\<close>: the first value that raises ends it.\<close>

definition format_all ::
  "pyval list \<Rightarrow> (string \<times> pyval) list \<Rightarrow> exn + (string list \<times> (string \<times> string) list)" where
  "format_all args kwargs =
     (case in_order (map format_value args) of
        Inl e \<Rightarrow> Inl e
      | Inr args_repr \<Rightarrow>
          (case in_order (map (\<lambda>(k, v). case format_value v of
                                            Inl e \<Rightarrow> Inl e
                                          | Inr s \<Rightarrow> Inr (k, s)) kwargs) of
             Inl e \<Rightarrow> Inl e
           | Inr items \<Rightarrow> Inr (args_repr, dict_of_items items)))"

text \<open>
  Lines 58 to 63, with the handler. \<^verbatim>\<open>except Exception\<close> does not catch an exception
  that is not an \<^verbatim>\<open>Exception\<close>, and the \<^verbatim>\<open>str(e)\<close> of line 63 is not guarded: if it
  raises, that exception leaves the wrapper.
\<close>

definition format_args ::
  "pyval list \<Rightarrow> (string \<times> pyval) list \<Rightarrow> exn + (string list \<times> (string \<times> string) list)" where
  "format_args args kwargs =
     (case format_all args kwargs of
        Inr r \<Rightarrow> Inr r
      | Inl e \<Rightarrow>
          (if is_Exception e then
             (case exn_str e of
                Inl e' \<Rightarrow> Inl e'
              | Inr m \<Rightarrow> Inr ([''<error formatting args>''], [(''error'', m)]))
           else Inl e))"

text \<open>Lines 66 to 75, from the two formatted collections.\<close>

definition log_entry ::
  "env \<Rightarrow> pyfunc \<Rightarrow> string \<Rightarrow> pyval list \<Rightarrow> (string \<times> pyval) list \<Rightarrow>
   string list \<Rightarrow> (string \<times> string) list \<Rightarrow> string list" where
  "log_entry env func func_path args kwargs args_repr kwargs_repr =
     [newline # banner,
      ''[TIMESTAMP] '' @ current_time env,
      ''[CALL STACK] '' @ call_stack env,
      ''[FUNCTION] '' @ basename func_path @ ''::'' @ func_name func,
      ''[CALLER] '' @ caller_file env @ ''::'' @ caller_name env,
      ''[ARGS] '' @ (if args \<noteq> [] then list_text (map repr_str args_repr) else ''None''),
      ''[KWARGS] '' @ (if kwargs \<noteq> [] then dict_text kwargs_repr else ''None''),
      ''[START] Function execution started'']"

subsection \<open>The trace function (lines 89 to 110)\<close>

text \<open>
  An entry of \<^verbatim>\<open>nested_calls\<close>: a \<^verbatim>\<open>dict\<close> with the keys \<^verbatim>\<open>function\<close>, \<^verbatim>\<open>file\<close>
  and \<^verbatim>\<open>args\<close>, where \<^verbatim>\<open>args\<close> is a \<^verbatim>\<open>dict\<close> from argument names to formatted
  values, or the text of the handler.
\<close>

datatype call_args = ArgsDict "(string \<times> string) list" | ArgsError string

record nested_call =
  nc_function :: string
  nc_file :: string
  nc_args :: call_args

text \<open>
  Lines 100 and 101: the comprehension over \<^verbatim>\<open>args_info.args\<close>, keeping the names that
  are in the locals and formatting their values in order.
\<close>

definition frame_args :: "string list \<Rightarrow> (string \<Rightarrow> pyval option) \<Rightarrow> exn + (string \<times> string) list" where
  "frame_args names locals =
     (case in_order
             (concat (map (\<lambda>n. case locals n of
                                  None \<Rightarrow> []
                                | Some v \<Rightarrow> [case format_value v of
                                              Inl e \<Rightarrow> Inl e
                                            | Inr s \<Rightarrow> Inr (n, s)]) names)) of
        Inl e \<Rightarrow> Inl e
      | Inr items \<Rightarrow> Inr (dict_of_items items))"

text \<open>Lines 96 to 102, the body of the inner \<^verbatim>\<open>try\<close>.\<close>

definition args_dict :: "frame \<Rightarrow> exn + nested_call" where
  "args_dict fr =
     (case argvalues fr of
        Inl e \<Rightarrow> Inl e
      | Inr (names, locals) \<Rightarrow>
          (case frame_args names locals of
             Inl e \<Rightarrow> Inl e
           | Inr d \<Rightarrow>
               Inr \<lparr>nc_function = co_name fr, nc_file = basename (co_filename fr),
                    nc_args = ArgsDict d\<rparr>))"

text \<open>
  Lines 94 to 109: what is appended for a frame, with the handler; the \<^verbatim>\<open>str(e)\<close> of
  line 108 is not guarded.
\<close>

definition call_record :: "frame \<Rightarrow> exn + nested_call" where
  "call_record fr =
     (case args_dict fr of
        Inr d \<Rightarrow> Inr d
      | Inl e \<Rightarrow>
          (if is_Exception e then
             (case exn_str e of
                Inl e' \<Rightarrow> Inl e'
              | Inr m \<Rightarrow>
                  Inr \<lparr>nc_function = co_name fr, nc_file = basename (co_filename fr),
                       nc_args = ArgsError (''<error getting args: '' @ m @ ''>'')\<rparr>)
           else Inl e))"

definition trace_calls :: "frame \<Rightarrow> event \<Rightarrow> nested_call list \<Rightarrow> exn + nested_call list" where
  "trace_calls fr ev nested_calls =
     (if ev = Call then
        (if \<not> startswith_underscore (co_name fr) then
           (case call_record fr of
              Inl e \<Rightarrow> Inl e
            | Inr c \<Rightarrow> Inr (nested_calls @ [c]))
         else Inr nested_calls)
      else Inr nested_calls)"

text \<open>
  The list \<^verbatim>\<open>nested_calls\<close> after the events of a run. When a trace function raises,
  the interpreter removes it and delivers no further event to it, and the exception
  propagates into the traced code (it is then part of what the run returns or raises);
  the list keeps what was appended before.
\<close>

fun collect_from :: "nested_call list \<Rightarrow> (event \<times> frame) list \<Rightarrow> nested_call list" where
  "collect_from nested_calls [] = nested_calls"
| "collect_from nested_calls ((ev, fr) # evs) =
     (case trace_calls fr ev nested_calls of
        Inl e \<Rightarrow> nested_calls
      | Inr nested_calls' \<Rightarrow> collect_from nested_calls' evs)"

text \<open>Line 87: the list starts empty.\<close>

definition collect_nested :: "(event \<times> frame) list \<Rightarrow> nested_call list" where
  "collect_nested evs = collect_from [] evs"

subsection \<open>\<^verbatim>\<open>json.dumps(call, indent=2)\<close>\<close>

text \<open>
  A JSON string: the double quote and the backslash are escaped, backspace, form feed,
  newline, carriage return and tab have their short escapes, every other code point
  outside 0x20 to 0x7E becomes \<^verbatim>\<open>\u00NN\<close>.
\<close>

definition json_char :: "char \<Rightarrow> string" where
  "json_char c =
     (if c = dquote then [backslash, dquote]
      else if c = backslash then [backslash, backslash]
      else if c = CHR 0x08 then [backslash, CHR ''b'']
      else if c = CHR 0x0C then [backslash, CHR ''f'']
      else if c = CHR 0x0A then [backslash, CHR ''n'']
      else if c = CHR 0x0D then [backslash, CHR ''r'']
      else if c = CHR 0x09 then [backslash, CHR ''t'']
      else if (0x20 :: nat) \<le> of_char c \<and> (of_char c :: nat) \<le> 0x7E then [c]
      else [backslash, CHR ''u'', CHR ''0'', CHR ''0''] @ hex2 (of_char c))"

definition json_str :: "string \<Rightarrow> string" where
  "json_str s = [dquote] @ concat (map json_char s) @ [dquote]"

text \<open>An object at nesting depth 1, with \<^verbatim>\<open>indent=2\<close>; the empty object is \<^verbatim>\<open>{}\<close>.\<close>

definition json_object :: "(string \<times> string) list \<Rightarrow> string" where
  "json_object d =
     (if d = [] then ''{}''
      else ''{'' @ [newline]
           @ str_join ('','' @ [newline])
               (map (\<lambda>(k, v). ''    '' @ json_str k @ '': '' @ json_str v) d)
           @ [newline] @ ''  }'')"

definition json_dumps :: "nested_call \<Rightarrow> string" where
  "json_dumps c =
     ''{'' @ [newline]
     @ ''  '' @ json_str ''function'' @ '': '' @ json_str (nc_function c) @ '','' @ [newline]
     @ ''  '' @ json_str ''file'' @ '': '' @ json_str (nc_file c) @ '','' @ [newline]
     @ ''  '' @ json_str ''args'' @ '': ''
     @ (case nc_args c of ArgsDict d \<Rightarrow> json_object d | ArgsError s \<Rightarrow> json_str s)
     @ [newline] @ ''}''"

subsection \<open>The completion and error blocks, and the wrapper\<close>

text \<open>
  Lines 125 to 128: the result formatted, with the handler and its unguarded
  \<^verbatim>\<open>str(e)\<close>.
\<close>

definition result_repr :: "pyval \<Rightarrow> exn + string" where
  "result_repr v =
     (case format_value v of
        Inr s \<Rightarrow> Inr s
      | Inl e \<Rightarrow>
          (if is_Exception e then
             (case exn_str e of
                Inl e' \<Rightarrow> Inl e'
              | Inr m \<Rightarrow> Inr (''<error formatting result: '' @ m @ ''>''))
           else Inl e))"

text \<open>Lines 131 to 138, from the recorded calls and the formatted result.\<close>

definition completion_entry :: "env \<Rightarrow> nested_call list \<Rightarrow> string \<Rightarrow> string list" where
  "completion_entry env nested_calls res =
     [newline # ''[NESTED CALLS]'']
     @ map (\<lambda>c. ''  '' @ json_dumps c) nested_calls
     @ [newline # ''[RESULT] '' @ res,
        ''[DURATION] '' @ duration_done env @ '' seconds'',
        ''[END] Function execution completed successfully'',
        banner @ [newline]]"

text \<open>Lines 152 to 158, for the exception \<open>e\<close> with \<^verbatim>\<open>str(e)\<close> = \<open>m\<close>.\<close>

definition error_entry :: "env \<Rightarrow> pyfunc \<Rightarrow> exn \<Rightarrow> string \<Rightarrow> string list" where
  "error_entry env func e m =
     [newline # ''[ERROR] Exception in '' @ func_name func @ '': '' @ m,
      ''[TRACEBACK] '' @ format_exc env e,
      ''[DURATION] '' @ duration_failed env @ '' seconds'',
      ''[END] Function execution failed'',
      banner @ [newline]]"

text \<open>
  Lines 149 to 166, the handler of the outer \<^verbatim>\<open>try\<close> for an exception \<open>e\<close> raised
  inside it: \<^verbatim>\<open>except Exception\<close> lets through what is not an \<^verbatim>\<open>Exception\<close>;
  otherwise the error block is built (the \<^verbatim>\<open>str(e)\<close> of line 153 first) and written
  to both files, then \<^verbatim>\<open>raise\<close>. What raises inside the handler propagates in place
  of \<open>e\<close>. The handler does not touch the trace function.
\<close>

definition on_exception :: "env \<Rightarrow> pyfunc \<Rightarrow> exn \<Rightarrow> world \<Rightarrow> (exn + pyval) \<times> world" where
  "on_exception env func e w =
     (if is_Exception e then
        (case exn_str e of
           Inl e' \<Rightarrow> (Inl e', w)
         | Inr m \<Rightarrow>
             (case write_logs (log_paths env func) (error_entry env func e m) w of
                (Inl e', w') \<Rightarrow> (Inl e', w')
              | (Inr u, w') \<Rightarrow> (Inl e, w')))
      else (Inl e, w))"

text \<open>
  Lines 113 and 116: \<^verbatim>\<open>sys.settrace(trace_calls)\<close>, then \<^verbatim>\<open>func(*args, **kwargs)\<close>.
\<close>

definition call_target :: "pyfunc \<Rightarrow> pyval list \<Rightarrow> (string \<times> pyval) list \<Rightarrow> world \<Rightarrow> run" where
  "call_target func args kwargs w = func_body func args kwargs (w\<lparr>trace_fn := Some Trace_calls\<rparr>)"

text \<open>
  Lines 119 to 145, after the function has returned \<open>v\<close>:
  \<^verbatim>\<open>sys.settrace(None)\<close>, then the completion block is built and written.
\<close>

definition complete :: "env \<Rightarrow> pyfunc \<Rightarrow> run \<Rightarrow> pyval \<Rightarrow> (exn + unit) \<times> world" where
  "complete env func r v =
     (case result_repr v of
        Inl e \<Rightarrow> (Inl e, (run_world r)\<lparr>trace_fn := None\<rparr>)
      | Inr res \<Rightarrow>
          write_logs (log_paths env func)
            (completion_entry env (collect_nested (run_traced r)) res)
            ((run_world r)\<lparr>trace_fn := None\<rparr>))"

text \<open>
  Lines 85 to 166, the outer \<^verbatim>\<open>try\<close> with its handler. Whatever raises in the
  \<^verbatim>\<open>try\<close>, the call or the writing of the completion block, goes to the handler; the
  \<^verbatim>\<open>sys.settrace(None)\<close> of line 119 is reached only when the call returns.
\<close>

definition execute ::
  "env \<Rightarrow> pyfunc \<Rightarrow> pyval list \<Rightarrow> (string \<times> pyval) list \<Rightarrow> world \<Rightarrow> (exn + pyval) \<times> world" where
  "execute env func args kwargs w =
     (let r = call_target func args kwargs w in
      case run_outcome r of
        Inl e \<Rightarrow> on_exception env func e (run_world r)
      | Inr v \<Rightarrow>
          (case complete env func r v of
             (Inl e, w') \<Rightarrow> on_exception env func e w'
           | (Inr u, w') \<Rightarrow> (Inr v, w')))"

text \<open>
  Lines 29 to 82, up to the outer \<^verbatim>\<open>try\<close>: what raises here (creating the directory,
  \<^verbatim>\<open>inspect.getfile\<close>, the handler of the formatting, writing the entry block) leaves
  the wrapper before the function is called.
\<close>

definition enter ::
  "env \<Rightarrow> pyfunc \<Rightarrow> pyval list \<Rightarrow> (string \<times> pyval) list \<Rightarrow> world \<Rightarrow> (exn + unit) \<times> world" where
  "enter env func args kwargs w =
     (case ensure_log_dir ''logs'' w of
        (Inl e, w0) \<Rightarrow> (Inl e, w0)
      | (Inr u, w0) \<Rightarrow>
          (case func_getfile func of
             Inl e \<Rightarrow> (Inl e, w0)
           | Inr func_path \<Rightarrow>
               (case format_args args kwargs of
                  Inl e \<Rightarrow> (Inl e, w0)
                | Inr (args_repr, kwargs_repr) \<Rightarrow>
                    write_logs (log_paths env func)
                      (log_entry env func func_path args kwargs args_repr kwargs_repr) w0)))"

text \<open>The whole \<^verbatim>\<open>wrapper\<close> (lines 29 to 166).\<close>

definition wrapper ::
  "env \<Rightarrow> pyfunc \<Rightarrow> pyval list \<Rightarrow> (string \<times> pyval) list \<Rightarrow> world \<Rightarrow> (exn + pyval) \<times> world" where
  "wrapper env func args kwargs w =
     (case enter env func args kwargs w of
        (Inl e, w1) \<Rightarrow> (Inl e, w1)
      | (Inr u, w1) \<Rightarrow> execute env func args kwargs w1)"



subsection \<open>Example invocations\<close>

text \<open>
  A process with the \<^verbatim>\<open>logs\<close> directory in place, no log file yet, no trace function
  installed and no failing system call ahead.
\<close>

definition world0 :: world where
  "world0 = \<lparr>fs_dirs = {''logs''}, fs_files = (\<lambda>p. None), console = [],
             trace_fn = None, io_faults = []\<rparr>"

definition denied :: fault where
  "denied = Fault ''PermissionError'' ''[Errno 13] Permission denied''"

definition disk_full :: fault where
  "disk_full = Fault ''OSError'' ''[Errno 28] No space left on device''"

text \<open>The same process where the first \<^verbatim>\<open>open\<close> of the wrapper fails.\<close>

definition world_fault1 :: world where
  "world_fault1 = world0\<lparr>io_faults := [Some denied]\<rparr>"

text \<open>
  Writing a block of eight lines to two files takes 36 calls that can fail: for each
  file the \<^verbatim>\<open>open\<close>, eight times \<^verbatim>\<open>print\<close> and \<^verbatim>\<open>write\<close>, and the closing. Here the
  entry block goes through and the next \<^verbatim>\<open>open\<close> fails, once.
\<close>

definition world_fault_once :: world where
  "world_fault_once = world0\<lparr>io_faults := replicate 36 None @ [Some disk_full]\<rparr>"


definition env0 :: env where
  "env0 = \<lparr>today = ''20240101'', current_time = ''2024-01-01 12:00:00.000000'',
           caller_frame = Some (''main'', ''/app/run.py''),
           stack = [(''/app/facefusion/utilities.py'', ''wrapper''), (''/app/run.py'', ''main'')],
           duration_done = ''0.0010'', duration_failed = ''0.0020'',
           format_exc = (\<lambda>e. ''Traceback (most recent call last): '' @ exn_class e)\<rparr>"

text \<open>
  \<^verbatim>\<open>def count(*items, **opts): return len(items)\<close>. It takes any arguments;
  \<^verbatim>\<open>getargvalues\<close> lists no positional parameter for its frame.
\<close>

definition count_frame :: "pyval list \<Rightarrow> (string \<times> pyval) list \<Rightarrow> frame" where
  "count_frame args kwargs =
     \<lparr>co_name = ''count'', co_filename = ''/app/calc.py'',
      argvalues = Inr ([], [''items'' \<mapsto> py_tuple args,
                           ''opts'' \<mapsto> py_dict (map (\<lambda>(k, v). (py_text k, v)) kwargs)])\<rparr>"

definition f_count :: pyfunc where
  "f_count =
     \<lparr>func_name = ''count'', func_getfile = Inr ''/app/calc.py'',
      func_body = (\<lambda>args kwargs w.
        \<lparr>run_traced = [(Call, count_frame args kwargs), (Line, count_frame args kwargs),
                       (Return, count_frame args kwargs)],
         run_outcome = Inr (py_int (int (length args))), run_world = w\<rparr>)\<rparr>"

text \<open>
  What calling a function without parameters with arguments raises, before any frame
  exists.
\<close>

definition no_parameters :: "string \<Rightarrow> pyval list \<Rightarrow> (string \<times> pyval) list \<Rightarrow> exn" where
  "no_parameters name args kwargs =
     Exn True ''TypeError''
       (Inr (case kwargs of
               (k, v) # _ \<Rightarrow>
                 name @ ''() got an unexpected keyword argument '' @ [squote] @ k @ [squote]
             | [] \<Rightarrow>
                 name @ ''() takes 0 positional arguments but '' @ show_nat (length args)
                 @ (if length args = 1 then '' was given'' else '' were given'')))"

text \<open>The frames of \<^verbatim>\<open>def inner(x): return x\<close> called with 7, and of a function
  without parameters.\<close>

definition inner_frame :: frame where
  "inner_frame =
     \<lparr>co_name = ''inner'', co_filename = ''/app/calc.py'',
      argvalues = Inr ([''x''], [''x'' \<mapsto> py_int 7])\<rparr>"

definition frame0 :: "string \<Rightarrow> frame" where
  "frame0 name =
     \<lparr>co_name = name, co_filename = ''/app/calc.py'', argvalues = Inr ([], (\<lambda>n. None))\<rparr>"


text \<open>\<^verbatim>\<open>def broken(): inner(7); raise ValueError('boom')\<close>.\<close>

definition boom :: exn where
  "boom = Exn True ''ValueError'' (Inr ''boom'')"

definition f_broken :: pyfunc where
  "f_broken =
     \<lparr>func_name = ''broken'', func_getfile = Inr ''/app/calc.py'',
      func_body = (\<lambda>args kwargs w.
        if args = [] \<and> kwargs = [] then
          \<lparr>run_traced = [(Call, frame0 ''broken''), (Line, frame0 ''broken''),
                         (Call, inner_frame), (Line, inner_frame), (Return, inner_frame),
                         (Raised, frame0 ''broken''), (Return, frame0 ''broken'')],
           run_outcome = Inl boom, run_world = w\<rparr>
        else
          \<lparr>run_traced = [], run_outcome = Inl (no_parameters ''broken'' args kwargs),
           run_world = w\<rparr>)\<rparr>"


subsection \<open>Properties of the writing steps\<close>

lemma take_fault_keeps:
  assumes "take_fault w = (f, w')"
  shows "trace_fn w' = trace_fn w" and "fs_files w' = fs_files w" and "console w' = console w"
  using assms by (auto simp: take_fault_def split: list.splits)

lemma file_text_cong: "fs_files w' p = fs_files w p \<Longrightarrow> file_text w' p = file_text w p"
  by (simp add: file_text_def)

lemma write_lines_trace: "write_lines p ls w = (r, w') \<Longrightarrow> trace_fn w' = trace_fn w"
proof (induction ls arbitrary: w)
  case Nil
  then show ?case by simp
next
  case (Cons l ls)
  obtain f1 w1 where a: "take_fault w = (f1, w1)" by (cases "take_fault w")
  obtain f2 w2 where b: "take_fault (w1\<lparr>console := console w1 @ [l]\<rparr>) = (f2, w2)"
    by (cases "take_fault (w1\<lparr>console := console w1 @ [l]\<rparr>)")
  from take_fault_keeps(1) [OF a] have t1: "trace_fn w1 = trace_fn w" .
  from take_fault_keeps(1) [OF b] have t2: "trace_fn w2 = trace_fn w1" by simp
  show ?case
  proof (cases f1)
    case (Some f)
    with a Cons.prems t1 show ?thesis by simp
  next
    case None
    show ?thesis
    proof (cases f2)
      case (Some f)
      with a b None Cons.prems t1 t2 show ?thesis by simp
    next
      case n2: None
      from a b None n2 Cons.prems have
        "write_lines p ls (w2\<lparr>fs_files := (fs_files w2)(p \<mapsto> file_text w2 p @ l @ [newline])\<rparr>) = (r, w')"
        by simp
      from Cons.IH [OF this] t1 t2 show ?thesis by simp
    qed
  qed
qed

lemma write_lines_other:
  "write_lines p ls w = (r, w') \<Longrightarrow> q \<noteq> p \<Longrightarrow> fs_files w' q = fs_files w q"
proof (induction ls arbitrary: w)
  case Nil
  then show ?case by simp
next
  case (Cons l ls)
  obtain f1 w1 where a: "take_fault w = (f1, w1)" by (cases "take_fault w")
  obtain f2 w2 where b: "take_fault (w1\<lparr>console := console w1 @ [l]\<rparr>) = (f2, w2)"
    by (cases "take_fault (w1\<lparr>console := console w1 @ [l]\<rparr>)")
  from take_fault_keeps(2) [OF a] have t1: "fs_files w1 = fs_files w" .
  from take_fault_keeps(2) [OF b] have t2: "fs_files w2 = fs_files w1" by simp
  show ?case
  proof (cases f1)
    case (Some f)
    with a Cons.prems t1 show ?thesis by simp
  next
    case None
    show ?thesis
    proof (cases f2)
      case (Some f)
      with a b None Cons.prems t1 t2 show ?thesis by simp
    next
      case n2: None
      from a b None n2 Cons.prems have
        "write_lines p ls (w2\<lparr>fs_files := (fs_files w2)(p \<mapsto> file_text w2 p @ l @ [newline])\<rparr>) = (r, w')"
        by simp
      from Cons.IH [OF this Cons.prems(2)] Cons.prems(2) t1 t2 show ?thesis by simp
    qed
  qed
qed

lemma write_lines_written:
  "write_lines p ls w = (Inr u, w') \<Longrightarrow> file_text w' p = file_text w p @ written_text ls"
proof (induction ls arbitrary: w)
  case Nil
  then show ?case by (simp add: written_text_def)
next
  case (Cons l ls)
  obtain f1 w1 where a: "take_fault w = (f1, w1)" by (cases "take_fault w")
  obtain f2 w2 where b: "take_fault (w1\<lparr>console := console w1 @ [l]\<rparr>) = (f2, w2)"
    by (cases "take_fault (w1\<lparr>console := console w1 @ [l]\<rparr>)")
  from take_fault_keeps(2) [OF a] have t1: "fs_files w1 = fs_files w" .
  from take_fault_keeps(2) [OF b] have t2: "fs_files w2 = fs_files w1" by simp
  from a b Cons.prems have n1: "f1 = None" and n2: "f2 = None"
    by (auto split: option.splits)
  let ?w3 = "w2\<lparr>fs_files := (fs_files w2)(p \<mapsto> file_text w2 p @ l @ [newline])\<rparr>"
  from a b n1 n2 Cons.prems have "write_lines p ls ?w3 = (Inr u, w')" by simp
  from Cons.IH [OF this] have "file_text w' p = file_text ?w3 p @ written_text ls" .
  moreover have "file_text ?w3 p = file_text w p @ l @ [newline]"
    using t1 t2 by (simp add: file_text_def)
  ultimately show ?case by (simp add: written_text_def)
qed

lemma append_lines_trace: "append_lines p ls w = (r, w') \<Longrightarrow> trace_fn w' = trace_fn w"
proof -
  assume h: "append_lines p ls w = (r, w')"
  obtain f1 w1 where a: "take_fault w = (f1, w1)" by (cases "take_fault w")
  let ?w1 = "w1\<lparr>fs_files := (fs_files w1)(p \<mapsto> file_text w1 p)\<rparr>"
  obtain r2 w2 where b: "write_lines p ls ?w1 = (r2, w2)" by (cases "write_lines p ls ?w1")
  obtain f3 w3 where c: "take_fault w2 = (f3, w3)" by (cases "take_fault w2")
  from take_fault_keeps(1) [OF a] write_lines_trace [OF b] take_fault_keeps(1) [OF c]
  have t: "trace_fn w1 = trace_fn w" "trace_fn w2 = trace_fn w" "trace_fn w3 = trace_fn w" by simp_all
  from h a b c t show ?thesis
    by (cases f1; cases f3) (auto simp: append_lines_def)
qed

lemma append_lines_other:
  assumes h: "append_lines p ls w = (r, w')" and q: "q \<noteq> p"
  shows "fs_files w' q = fs_files w q"
proof -
  obtain f1 w1 where a: "take_fault w = (f1, w1)" by (cases "take_fault w")
  let ?w1 = "w1\<lparr>fs_files := (fs_files w1)(p \<mapsto> file_text w1 p)\<rparr>"
  obtain r2 w2 where b: "write_lines p ls ?w1 = (r2, w2)" by (cases "write_lines p ls ?w1")
  obtain f3 w3 where c: "take_fault w2 = (f3, w3)" by (cases "take_fault w2")
  from take_fault_keeps(2) [OF a] write_lines_other [OF b q] take_fault_keeps(2) [OF c] q
  have t: "fs_files w1 q = fs_files w q" "fs_files w2 q = fs_files w q" "fs_files w3 q = fs_files w q"
    by simp_all
  from h a b c t show ?thesis
    by (cases f1; cases f3) (auto simp: append_lines_def)
qed

lemma append_lines_written:
  assumes h: "append_lines p ls w = (Inr u, w')"
  shows "file_text w' p = file_text w p @ written_text ls"
proof -
  obtain f1 w1 where a: "take_fault w = (f1, w1)" by (cases "take_fault w")
  let ?w1 = "w1\<lparr>fs_files := (fs_files w1)(p \<mapsto> file_text w1 p)\<rparr>"
  obtain r2 w2 where b: "write_lines p ls ?w1 = (r2, w2)" by (cases "write_lines p ls ?w1")
  obtain f3 w3 where c: "take_fault w2 = (f3, w3)" by (cases "take_fault w2")
  from h a b c have n: "f1 = None" "f3 = None" "r2 = Inr u" "w' = w3"
    by (auto simp: append_lines_def split: option.splits)
  from b n have "file_text w2 p = file_text ?w1 p @ written_text ls"
    by (simp add: write_lines_written)
  moreover have "file_text ?w1 p = file_text w p"
    using take_fault_keeps(2) [OF a] by (simp add: file_text_def)
  moreover have "file_text w3 p = file_text w2 p"
    using take_fault_keeps(2) [OF c] by (simp add: file_text_def)
  ultimately show ?thesis using n by simp
qed



lemma write_logs_trace: "write_logs ps ls w = (r, w') \<Longrightarrow> trace_fn w' = trace_fn w"
proof (induction ps arbitrary: w)
  case Nil
  then show ?case by simp
next
  case (Cons p ps)
  obtain r1 w1 where a: "append_lines p ls w = (r1, w1)" by (cases "append_lines p ls w")
  then have t: "trace_fn w1 = trace_fn w" by (rule append_lines_trace)
  show ?case
  proof (cases r1)
    case (Inl e)
    with a Cons.prems t show ?thesis by simp
  next
    case (Inr u)
    with a Cons.prems have "write_logs ps ls w1 = (r, w')" by simp
    then have "trace_fn w' = trace_fn w1" by (rule Cons.IH)
    with t show ?thesis by simp
  qed
qed


lemma write_logs_both_written:
  assumes "fst (write_logs [p, q] ls w) = Inr ()" and "p \<noteq> q"
  shows "file_text (snd (write_logs [p, q] ls w)) p = file_text w p @ written_text ls \<and>
         file_text (snd (write_logs [p, q] ls w)) q = file_text w q @ written_text ls"
proof -
  obtain r1 w1 where a: "append_lines p ls w = (r1, w1)" by (cases "append_lines p ls w")
  obtain r2 w2 where b: "append_lines q ls w1 = (r2, w2)" by (cases "append_lines q ls w1")
  from a b assms(1) have r1: "r1 = Inr ()" and r2: "r2 = Inr ()"
    by (auto split: sum.splits)
  from a b r1 r2 have res: "write_logs [p, q] ls w = (Inr (), w2)" by simp
  from a r1 have p1: "file_text w1 p = file_text w p @ written_text ls"
    by (simp add: append_lines_written)
  from a assms(2) have q1: "fs_files w1 q = fs_files w q"
    using append_lines_other [of p ls w r1 w1 q] by simp
  from b r2 have q2: "file_text w2 q = file_text w1 q @ written_text ls"
    by (simp add: append_lines_written)
  from b assms(2) have p2: "fs_files w2 p = fs_files w1 p"
    using append_lines_other [of q ls w1 r2 w2 p] by simp
  from p1 p2 have "file_text w2 p = file_text w p @ written_text ls"
    by (simp add: file_text_def)
  moreover from q1 q2 have "file_text w2 q = file_text w q @ written_text ls"
    by (simp add: file_text_def)
  ultimately show ?thesis unfolding res by simp
qed

lemma ensure_log_dir_files:
  "ensure_log_dir d w = (r, w') \<Longrightarrow> fs_files w' = fs_files w"
  by (cases "take_fault w")
     (auto simp: ensure_log_dir_def split: if_splits option.splits dest: take_fault_keeps(2))

subsection \<open>Properties of the handler and of the wrapper\<close>

lemma on_exception_trace:
  assumes "on_exception env func e w = (r, w')"
  shows "trace_fn w' = trace_fn w"
proof (cases "is_Exception e")
  case False
  with assms show ?thesis by (simp add: on_exception_def)
next
  case True
  show ?thesis
  proof (cases "exn_str e")
    case (Inl e')
    with True assms show ?thesis by (simp add: on_exception_def)
  next
    case (Inr m)
    obtain r1 w1 where a: "write_logs (log_paths env func) (error_entry env func e m) w = (r1, w1)"
      by (cases "write_logs (log_paths env func) (error_entry env func e m) w")
    then have t: "trace_fn w1 = trace_fn w" by (rule write_logs_trace)
    from a assms True Inr have "w' = w1"
      by (cases r1) (simp_all add: on_exception_def)
    with t show ?thesis by simp
  qed
qed



lemma on_exception_written:
  assumes "is_Exception e" and "exn_str e = Inr m"
    and "fst (write_logs (log_paths env func) (error_entry env func e m) w) = Inr ()"
  shows "on_exception env func e w =
           (Inl e, snd (write_logs (log_paths env func) (error_entry env func e m) w))"
  using assms
  by (cases "write_logs (log_paths env func) (error_entry env func e m) w")
     (simp add: on_exception_def)


lemma wrapper_entered:
  "fst (enter env func args kwargs w) = Inr () \<Longrightarrow>
   wrapper env func args kwargs w = execute env func args kwargs (snd (enter env func args kwargs w))"
  by (cases "enter env func args kwargs w") (simp add: wrapper_def)

lemma wrapper_not_entered:
  "fst (enter env func args kwargs w) = Inl e \<Longrightarrow>
   wrapper env func args kwargs w = (Inl e, snd (enter env func args kwargs w))"
  by (cases "enter env func args kwargs w") (simp add: wrapper_def)

lemma execute_raised:
  "run_outcome (call_target func args kwargs w) = Inl e \<Longrightarrow>
   execute env func args kwargs w = on_exception env func e (run_world (call_target func args kwargs w))"
  by (simp add: execute_def Let_def)

lemma execute_returned:
  "run_outcome (call_target func args kwargs w) = Inr v \<Longrightarrow>
   execute env func args kwargs w =
     (case complete env func (call_target func args kwargs w) v of
        (Inl e, w') \<Rightarrow> on_exception env func e w'
      | (Inr u, w') \<Rightarrow> (Inr v, w'))"
  by (simp add: execute_def Let_def)

lemma log_paths_distinct: "log_file env \<noteq> func_log_file env func"
proof
  assume "log_file env = func_log_file env func"
  then have "length (log_file env) = length (func_log_file env func)" by simp
  then show False by (simp add: log_file_def func_log_file_def)
qed

lemma complete_trace:
  assumes "complete env func r v = (r', w')"
  shows "trace_fn w' = None"
proof (cases "result_repr v")
  case (Inl e)
  with assms show ?thesis by (auto simp: complete_def)
next
  case (Inr res)
  with assms have
    "write_logs (log_paths env func) (completion_entry env (collect_nested (run_traced r)) res)
       ((run_world r)\<lparr>trace_fn := None\<rparr>) = (r', w')"
    by (simp add: complete_def)
  from write_logs_trace [OF this] show ?thesis by simp
qed

lemma wrapper_returned:
  assumes "fst (enter env func args kwargs w) = Inr ()"
    and "run_outcome (call_target func args kwargs (snd (enter env func args kwargs w))) = Inr v"
    and "fst (complete env func (call_target func args kwargs (snd (enter env func args kwargs w))) v) = Inr ()"
  shows "wrapper env func args kwargs w =
           (Inr v, snd (complete env func (call_target func args kwargs (snd (enter env func args kwargs w))) v))"
proof -
  let ?r = "call_target func args kwargs (snd (enter env func args kwargs w))"
  obtain r2 w2 where c: "complete env func ?r v = (r2, w2)" by (cases "complete env func ?r v")
  with assms(3) have "r2 = Inr ()" by simp
  with c assms(1,2) show ?thesis
    by (simp add: wrapper_entered execute_returned)
qed

lemma wrapper_raised:
  assumes "fst (enter env func args kwargs w) = Inr ()"
    and "run_outcome (call_target func args kwargs (snd (enter env func args kwargs w))) = Inl e"
  shows "wrapper env func args kwargs w =
           on_exception env func e
             (run_world (call_target func args kwargs (snd (enter env func args kwargs w))))"
  using assms by (simp add: wrapper_entered execute_raised)

lemma wrapper_completion_failed:
  assumes "fst (enter env func args kwargs w) = Inr ()"
    and "run_outcome (call_target func args kwargs (snd (enter env func args kwargs w))) = Inr v"
    and "fst (complete env func (call_target func args kwargs (snd (enter env func args kwargs w))) v) = Inl e"
  shows "wrapper env func args kwargs w =
           on_exception env func e
             (snd (complete env func (call_target func args kwargs (snd (enter env func args kwargs w))) v))"
proof -
  let ?r = "call_target func args kwargs (snd (enter env func args kwargs w))"
  obtain r2 w2 where c: "complete env func ?r v = (r2, w2)" by (cases "complete env func ?r v")
  with assms(3) have r2: "r2 = Inl e" by simp
  from c have w2: "snd (complete env func ?r v) = w2" by simp
  from c r2 assms(1,2) have "wrapper env func args kwargs w = on_exception env func e w2"
    by (simp add: wrapper_entered execute_returned)
  with w2 show ?thesis by simp
qed

lemma tracer_after_raise:
  assumes "fst (enter env func args kwargs w) = Inr ()"
    and "run_outcome (call_target func args kwargs (snd (enter env func args kwargs w))) = Inl e"
  shows "trace_fn (snd (wrapper env func args kwargs w)) =
         trace_fn (run_world (call_target func args kwargs (snd (enter env func args kwargs w))))"
proof -
  let ?r = "call_target func args kwargs (snd (enter env func args kwargs w))"
  obtain r' w' where o: "on_exception env func e (run_world ?r) = (r', w')"
    by (cases "on_exception env func e (run_world ?r)")
  from on_exception_trace [OF o] wrapper_raised [OF assms] o show ?thesis by simp
qed

lemma tracer_after_return:
  assumes "fst (enter env func args kwargs w) = Inr ()"
    and "run_outcome (call_target func args kwargs (snd (enter env func args kwargs w))) = Inr v"
  shows "trace_fn (snd (wrapper env func args kwargs w)) = None"
proof -
  let ?r = "call_target func args kwargs (snd (enter env func args kwargs w))"
  obtain r2 w2 where c: "complete env func ?r v = (r2, w2)" by (cases "complete env func ?r v")
  then have t2: "trace_fn w2 = None" by (rule complete_trace)
  show ?thesis
  proof (cases r2)
    case (Inl e)
    obtain r' w' where o: "on_exception env func e w2 = (r', w')"
      by (cases "on_exception env func e w2")
    from c Inl assms have "wrapper env func args kwargs w = on_exception env func e w2"
      by (simp add: wrapper_entered execute_returned)
    with o on_exception_trace [OF o] t2 show ?thesis by simp
  next
    case (Inr u)
    with c assms have "wrapper env func args kwargs w = (Inr v, w2)"
      by (simp add: wrapper_entered execute_returned)
    with t2 show ?thesis by simp
  qed
qed

lemma enter_written:
  assumes "fst (enter env func args kwargs w) = Inr ()"
  shows "\<exists>func_path args_repr kwargs_repr.
           func_getfile func = Inr func_path \<and>
           format_args args kwargs = Inr (args_repr, kwargs_repr) \<and>
           file_text (snd (enter env func args kwargs w)) (log_file env) =
             file_text w (log_file env)
             @ written_text (log_entry env func func_path args kwargs args_repr kwargs_repr) \<and>
           file_text (snd (enter env func args kwargs w)) (func_log_file env func) =
             file_text w (func_log_file env func)
             @ written_text (log_entry env func func_path args kwargs args_repr kwargs_repr)"
proof -
  obtain r0 w0 where d: "ensure_log_dir ''logs'' w = (r0, w0)" by (cases "ensure_log_dir ''logs'' w")
  from ensure_log_dir_files [OF d] have f0: "fs_files w0 = fs_files w" .
  from assms d obtain u where r0: "r0 = Inr u"
    by (cases r0) (auto simp: enter_def)
  from assms d r0 obtain func_path where gf: "func_getfile func = Inr func_path"
    by (cases "func_getfile func") (auto simp: enter_def)
  from assms d r0 gf obtain args_repr kwargs_repr where
    fa: "format_args args kwargs = Inr (args_repr, kwargs_repr)"
    by (cases "format_args args kwargs") (auto simp: enter_def)
  let ?ls = "log_entry env func func_path args kwargs args_repr kwargs_repr"
  from d r0 gf fa have e: "enter env func args kwargs w =
      write_logs [log_file env, func_log_file env func] ?ls w0"
    by (simp add: enter_def log_paths_def)
  with assms have ok: "fst (write_logs [log_file env, func_log_file env func] ?ls w0) = Inr ()"
    by simp
  from write_logs_both_written [OF ok log_paths_distinct] f0 have
    "file_text (snd (enter env func args kwargs w)) (log_file env) = file_text w (log_file env) @ written_text ?ls \<and>
     file_text (snd (enter env func args kwargs w)) (func_log_file env func) =
       file_text w (func_log_file env func) @ written_text ?ls"
    unfolding e by (simp add: file_text_def)
  with gf fa show ?thesis by blast
qed

subsection \<open>Properties of the trace function\<close>



lemma in_order_Inr: "in_order rs = Inr xs \<Longrightarrow> rs = map Inr xs"
proof (induction rs arbitrary: xs)
  case Nil
  then show ?case by simp
next
  case (Cons r rs)
  then show ?case by (cases r) (auto split: sum.splits)
qed










subsection \<open>Runs of the system calls\<close>

lemma write_lines_nofault:
  "io_faults w = [] \<Longrightarrow>
   fst (write_lines p ls w) = Inr () \<and> io_faults (snd (write_lines p ls w)) = []"
  by (induction ls arbitrary: w) (simp_all add: take_fault_def)

lemma write_lines_scheduled:
  "io_faults w = replicate (2 * length ls) None @ rest \<Longrightarrow>
   fst (write_lines p ls w) = Inr () \<and> io_faults (snd (write_lines p ls w)) = rest"
  by (induction ls arbitrary: w) (simp_all add: take_fault_def)

lemma append_lines_nofault:
  assumes "io_faults w = []"
  shows "fst (append_lines p ls w) = Inr () \<and> io_faults (snd (append_lines p ls w)) = []"
proof -
  let ?w1 = "w\<lparr>fs_files := (fs_files w)(p \<mapsto> file_text w p)\<rparr>"
  obtain r2 w2 where b: "write_lines p ls ?w1 = (r2, w2)" by (cases "write_lines p ls ?w1")
  from assms have "io_faults ?w1 = []" by simp
  from write_lines_nofault [OF this, of p ls] b have "r2 = Inr ()" "io_faults w2 = []" by simp_all
  with assms b show ?thesis by (simp add: append_lines_def take_fault_def)
qed

lemma append_lines_scheduled:
  assumes "io_faults w = replicate (2 * length ls + 2) None @ rest"
  shows "fst (append_lines p ls w) = Inr () \<and> io_faults (snd (append_lines p ls w)) = rest"
proof -
  let ?w0 = "w\<lparr>io_faults := replicate (2 * length ls) None @ None # rest\<rparr>"
  let ?w1 = "?w0\<lparr>fs_files := (fs_files ?w0)(p \<mapsto> file_text ?w0 p)\<rparr>"
  from assms have f: "io_faults w = None # replicate (2 * length ls) None @ None # rest"
    by (simp add: replicate_append_same)
  then have t: "take_fault w = (None, ?w0)" by (simp add: take_fault_def)
  obtain r2 w2 where b: "write_lines p ls ?w1 = (r2, w2)" by (cases "write_lines p ls ?w1")
  have "io_faults ?w1 = replicate (2 * length ls) None @ None # rest" by simp
  from write_lines_scheduled [OF this, of p] b have "r2 = Inr ()" "io_faults w2 = None # rest"
    by simp_all
  with t b show ?thesis by (simp add: append_lines_def take_fault_def)
qed

lemma append_lines_open_fails:
  "io_faults w = Some f # rest \<Longrightarrow>
   append_lines p ls w = (Inl (raised f), w\<lparr>io_faults := rest\<rparr>)"
  by (simp add: append_lines_def take_fault_def)

lemma write_logs_open_fails:
  "io_faults w = Some f # rest \<Longrightarrow>
   write_logs (p # ps) ls w = (Inl (raised f), w\<lparr>io_faults := rest\<rparr>)"
  by (simp add: append_lines_open_fails)

lemma write_logs_nofault:
  "io_faults w = [] \<Longrightarrow>
   fst (write_logs ps ls w) = Inr () \<and> io_faults (snd (write_logs ps ls w)) = []"
proof (induction ps arbitrary: w)
  case Nil
  then show ?case by simp
next
  case (Cons p ps)
  obtain r1 w1 where a: "append_lines p ls w = (r1, w1)" by (cases "append_lines p ls w")
  from append_lines_nofault [OF Cons.prems, of p ls] a have "r1 = Inr ()" "io_faults w1 = []"
    by simp_all
  with a Cons.IH [of w1] show ?case by simp
qed

lemma write_logs_scheduled:
  assumes "io_faults w = replicate (4 * length ls + 4) None @ rest"
  shows "fst (write_logs [p, q] ls w) = Inr () \<and> io_faults (snd (write_logs [p, q] ls w)) = rest"
proof -
  have "4 * length ls + 4 = (2 * length ls + 2) + (2 * length ls + 2)" by simp
  then have "replicate (4 * length ls + 4) (None :: fault option) =
        replicate (2 * length ls + 2) None @ replicate (2 * length ls + 2) None"
    by (simp only: replicate_add)
  with assms have f: "io_faults w =
      replicate (2 * length ls + 2) None @ (replicate (2 * length ls + 2) None @ rest)"
    by simp
  obtain r1 w1 where a: "append_lines p ls w = (r1, w1)" by (cases "append_lines p ls w")
  from append_lines_scheduled [OF f, of p] a
  have r1: "r1 = Inr ()" and f1: "io_faults w1 = replicate (2 * length ls + 2) None @ rest"
    by simp_all
  obtain r2 w2 where b: "append_lines q ls w1 = (r2, w2)" by (cases "append_lines q ls w1")
  from append_lines_scheduled [OF f1, of q] b have "r2 = Inr ()" "io_faults w2 = rest"
    by simp_all
  with a b r1 show ?thesis by simp
qed

lemma ensure_log_dir_there: "d \<in> fs_dirs w \<Longrightarrow> ensure_log_dir d w = (Inr (), w)"
  by (simp add: ensure_log_dir_def)

lemma enter_steps:
  assumes "''logs'' \<in> fs_dirs w" and "func_getfile func = Inr fp"
    and "format_args args kwargs = Inr (ar, kr)"
  shows "enter env func args kwargs w =
         write_logs [log_file env, func_log_file env func] (log_entry env func fp args kwargs ar kr) w"
  using assms by (simp add: enter_def ensure_log_dir_there log_paths_def)

lemma log_entry_length: "length (log_entry env func fp args kwargs ar kr) = 8"
  by (simp add: log_entry_def)

lemma enter_trace: "trace_fn (snd (enter env func args kwargs w)) = trace_fn w"
proof -
  obtain r0 w0 where d: "ensure_log_dir ''logs'' w = (r0, w0)" by (cases "ensure_log_dir ''logs'' w")
  then have t0: "trace_fn w0 = trace_fn w"
    by (cases "take_fault w")
       (auto simp: ensure_log_dir_def split: if_splits option.splits dest: take_fault_keeps(1))
  show ?thesis
  proof (cases r0)
    case (Inl e)
    with d t0 show ?thesis by (simp add: enter_def)
  next
    case (Inr u)
    show ?thesis
    proof (cases "func_getfile func")
      case (Inl e)
      with d Inr t0 show ?thesis by (simp add: enter_def)
    next
      case gf: (Inr fp)
      show ?thesis
      proof (cases "format_args args kwargs")
        case (Inl e)
        with d Inr gf t0 show ?thesis by (simp add: enter_def)
      next
        case fa: (Inr r)
        obtain ar kr where r: "r = (ar, kr)" by (cases r)
        obtain r1 w1 where wl: "write_logs (log_paths env func) (log_entry env func fp args kwargs ar kr) w0 = (r1, w1)"
          by (cases "write_logs (log_paths env func) (log_entry env func fp args kwargs ar kr) w0")
        from write_logs_trace [OF wl] t0 d Inr gf fa r wl show ?thesis by (simp add: enter_def)
      qed
    qed
  qed
qed

subsection \<open>The example invocations, step by step\<close>

lemma enter_nofault:
  assumes "''logs'' \<in> fs_dirs w" and "func_getfile func = Inr fp"
    and "format_args args kwargs = Inr (ar, kr)" and "io_faults w = []"
  shows "fst (enter env func args kwargs w) = Inr () \<and>
         io_faults (snd (enter env func args kwargs w)) = []"
  unfolding enter_steps [OF assms(1,2,3)] using assms(4) by (rule write_logs_nofault)

lemma enter_scheduled:
  assumes "''logs'' \<in> fs_dirs w" and "func_getfile func = Inr fp"
    and "format_args args kwargs = Inr (ar, kr)" and "io_faults w = replicate 36 None @ rest"
  shows "fst (enter env func args kwargs w) = Inr () \<and>
         io_faults (snd (enter env func args kwargs w)) = rest"
proof -
  from assms(4) have
    "io_faults w = replicate (4 * length (log_entry env func fp args kwargs ar kr) + 4) None @ rest"
    by (simp add: log_entry_length)
  then show ?thesis unfolding enter_steps [OF assms(1,2,3)] by (rule write_logs_scheduled)
qed

lemma enter_open_fails:
  assumes "''logs'' \<in> fs_dirs w" and "func_getfile func = Inr fp"
    and "format_args args kwargs = Inr (ar, kr)" and "io_faults w = Some f # rest"
  shows "enter env func args kwargs w = (Inl (raised f), w\<lparr>io_faults := rest\<rparr>)"
  unfolding enter_steps [OF assms(1,2,3)] using assms(4) by (rule write_logs_open_fails)

lemma wrapper_raise_logged:
  assumes "fst (enter env func args kwargs w) = Inr ()"
    and "run_outcome (call_target func args kwargs (snd (enter env func args kwargs w))) = Inl e"
    and "is_Exception e" and "exn_str e = Inr m"
    and "fst (write_logs (log_paths env func) (error_entry env func e m)
           (run_world (call_target func args kwargs (snd (enter env func args kwargs w))))) = Inr ()"
  shows "wrapper env func args kwargs w =
           (Inl e, snd (write_logs (log_paths env func) (error_entry env func e m)
              (run_world (call_target func args kwargs (snd (enter env func args kwargs w))))))"
  unfolding wrapper_raised [OF assms(1,2)] using assms(3,4,5) by (rule on_exception_written)

lemma count_run:
  "call_target f_count args kwargs w =
     \<lparr>run_traced = [(Call, count_frame args kwargs), (Line, count_frame args kwargs),
                    (Return, count_frame args kwargs)],
      run_outcome = Inr (py_int (int (length args))),
      run_world = w\<lparr>trace_fn := Some Trace_calls\<rparr>\<rparr>"
  by (simp add: call_target_def f_count_def)


lemma broken_run:
  "call_target f_broken [] [] w =
     \<lparr>run_traced = [(Call, frame0 ''broken''), (Line, frame0 ''broken''),
                    (Call, inner_frame), (Line, inner_frame), (Return, inner_frame),
                    (Raised, frame0 ''broken''), (Return, frame0 ''broken'')],
      run_outcome = Inl boom, run_world = w\<lparr>trace_fn := Some Trace_calls\<rparr>\<rparr>"
  by (simp add: call_target_def f_broken_def)


lemma format_no_args: "format_args [] [] = Inr ([], [])"
  by (simp add: format_args_def format_all_def dict_of_items_def)

lemma format_2_3: "format_args [py_int 2, py_int 3] [] = Inr ([''2'', ''3''], [])"
  by code_simp

lemma format_2_thing:
  "format_all [py_int 2, unprintable] [] = Inl no_text \<and>
   format_args [py_int 2, unprintable] [] = Inr ([''<error formatting args>''], [(''error'', ''no text'')])"
  by code_simp

lemma result_repr_ints: "result_repr (py_int 2) = Inr ''2''" "result_repr (py_int 7) = Inr ''7''"
  by code_simp+

lemma world0_facts:
  "''logs'' \<in> fs_dirs world0" "io_faults world0 = []" "trace_fn world0 = None"
  "fs_files world0 p = None" "file_text world0 p = []" "console world0 = []"
  by (simp_all add: world0_def file_text_def)

lemma boom_facts: "is_Exception boom" "exn_str boom = Inr ''boom''"
  by (simp_all add: boom_def)


lemma count_enter_scheduled:
  assumes "''logs'' \<in> fs_dirs w" and "io_faults w = replicate 36 None @ rest"
  shows "fst (enter env0 f_count [py_int 2, py_int 3] [] w) = Inr () \<and>
         io_faults (snd (enter env0 f_count [py_int 2, py_int 3] [] w)) = rest"
proof -
  have gf: "func_getfile f_count = Inr ''/app/calc.py''" by (simp add: f_count_def)
  from enter_scheduled [OF assms(1) gf format_2_3 assms(2)] show ?thesis .
qed

lemma count_completion_open_fails:
  assumes "io_faults w = Some f # rest"
  shows "complete env0 f_count (call_target f_count [py_int 2, py_int 3] [] w) (py_int 2) =
         (Inl (raised f), w\<lparr>trace_fn := None, io_faults := rest\<rparr>)"
proof -
  let ?r = "call_target f_count [py_int 2, py_int 3] [] w"
  from assms have "io_faults ((run_world ?r)\<lparr>trace_fn := None\<rparr>) = Some f # rest"
    by (simp add: count_run)
  from write_logs_open_fails [OF this] show ?thesis
    by (simp add: complete_def result_repr_ints log_paths_def count_run)
qed



lemma inner_record:
  "call_record inner_frame =
     Inr \<lparr>nc_function = ''inner'', nc_file = ''calc.py'', nc_args = ArgsDict [(''x'', ''7'')]\<rparr>"
  by code_simp


section \<open>The claims\<close>

subsection \<open>The trace function on the two ways out (C1)\<close>

text \<open>
  C1 says that the trace function installed before the call is removed before the
  wrapper exits, when the function returns and when it raises. The handler (lines 149
  to 166) has no \<^verbatim>\<open>sys.settrace(None)\<close>; only the path of a normal return has one
  (line 119). For \<^verbatim>\<open>broken\<close>, which raises \<^verbatim>\<open>ValueError('boom')\<close>, in a process that
  had no trace function, the wrapper re-raises the exception and leaves
  \<^verbatim>\<open>trace_calls\<close> installed. In general (\<open>tracer_after_return\<close>,
  \<open>tracer_after_raise\<close>): after a normal return of the function no trace function is
  installed, and after a raise the trace function is the one the function left, which
  is \<^verbatim>\<open>trace_calls\<close> unless the function itself replaced it.
\<close>

theorem broken_leaves_tracer_installed:
  "fst (wrapper env0 f_broken [] [] world0) = Inl (Exn True ''ValueError'' (Inr ''boom'')) \<and>
   trace_fn world0 = None \<and>
   trace_fn (snd (wrapper env0 f_broken [] [] world0)) = Some Trace_calls"
proof -
  let ?w1 = "snd (enter env0 f_broken [] [] world0)"
  have gf: "func_getfile f_broken = Inr ''/app/calc.py''" by (simp add: f_broken_def)
  from enter_nofault [OF world0_facts(1) gf format_no_args world0_facts(2), of env0]
  have ent: "fst (enter env0 f_broken [] [] world0) = Inr ()" and nf: "io_faults ?w1 = []"
    by simp_all
  have out: "run_outcome (call_target f_broken [] [] ?w1) = Inl boom"
    by (simp add: broken_run)
  have "io_faults (run_world (call_target f_broken [] [] ?w1)) = []"
    using nf by (simp add: broken_run)
  then have wr: "fst (write_logs (log_paths env0 f_broken) (error_entry env0 f_broken boom ''boom'')
                   (run_world (call_target f_broken [] [] ?w1))) = Inr ()"
    by (simp add: write_logs_nofault)
  from wrapper_raise_logged [OF ent out boom_facts wr]
  have "fst (wrapper env0 f_broken [] [] world0) = Inl boom" by simp
  moreover from tracer_after_raise [OF ent out]
  have "trace_fn (snd (wrapper env0 f_broken [] [] world0)) = Some Trace_calls"
    by (simp add: broken_run)
  ultimately show ?thesis by (simp add: boom_def world0_facts)
qed

subsection \<open>\<^verbatim>\<open>format_value\<close> can raise (C2)\<close>

text \<open>
  C2 says that \<^verbatim>\<open>format_value\<close> returns a string for every value and never raises,
  also when the conversion to a string or an attribute access fails. It has no
  handler: for an object with no \<^verbatim>\<open>__dict__\<close> whose \<^verbatim>\<open>__str__\<close> raises, the final
  \<^verbatim>\<open>str(value)\<close> raises and the exception leaves the function.
\<close>

theorem format_value_raises_counterexample:
  "format_value unprintable = Inl (Exn True ''RuntimeError'' (Inr ''no text''))"
  by code_simp

text \<open>
  C2 as amended: \<^verbatim>\<open>format_value\<close> raises \<open>e\<close> exactly when the first operation that
  raises among those it reaches raises \<open>e\<close>: a test of the chain, in the order
  \<^verbatim>\<open>ArgumentParser\<close>, \<^verbatim>\<open>ndarray\<close>, \<^verbatim>\<open>list\<close> or \<^verbatim>\<open>tuple\<close>, \<^verbatim>\<open>dict\<close>,
  \<^verbatim>\<open>__dict__\<close>; or, in the branch of the first test that holds, one of the fields of
  its text (\<^verbatim>\<open>shape\<close> then \<^verbatim>\<open>dtype\<close>; the name of the type then \<^verbatim>\<open>len\<close>; the
  keys or the \<^verbatim>\<open>repr\<close> of one of them; the name of the class); or, when no test holds,
  \<^verbatim>\<open>str(value)\<close>. In every other case it returns a string.
\<close>

theorem format_value_raises_iff:
  "format_value v = Inl e \<longleftrightarrow>
     isinstance_ArgumentParser v = Inl e \<or>
     isinstance_ArgumentParser v = Inr False \<and>
     (isinstance_ndarray v = Inl e \<or>
      isinstance_ndarray v = Inr True \<and>
        (shape_text v = Inl e \<or> (\<exists>sh. shape_text v = Inr sh) \<and> dtype_text v = Inl e) \<or>
      isinstance_ndarray v = Inr False \<and>
      (isinstance_list_tuple v = Inl e \<or>
       isinstance_list_tuple v = Inr True \<and>
         (type_name v = Inl e \<or> (\<exists>tn. type_name v = Inr tn) \<and> len_of v = Inl e) \<or>
       isinstance_list_tuple v = Inr False \<and>
       (isinstance_dict v = Inl e \<or>
        isinstance_dict v = Inr True \<and>
          (keys_of v = Inl e \<or> (\<exists>ks. keys_of v = Inr ks \<and> in_order ks = Inl e)) \<or>
        isinstance_dict v = Inr False \<and>
        (hasattr_dict v = Inl e \<or>
         hasattr_dict v = Inr True \<and> class_name v = Inl e \<or>
         hasattr_dict v = Inr False \<and> str_of v = Inl e))))"
proof (cases "isinstance_ArgumentParser v")
  case (Inl e1)
  then show ?thesis by (simp add: format_value_def)
next
  case a: (Inr b1)
  show ?thesis
  proof (cases b1)
    case True
    with a show ?thesis by (simp add: format_value_def)
  next
    case a1: False
    show ?thesis
    proof (cases "isinstance_ndarray v")
      case (Inl e2)
      with a a1 show ?thesis by (simp add: format_value_def)
    next
      case n: (Inr b2)
      show ?thesis
      proof (cases b2)
        case True
        with a a1 n show ?thesis
          by (cases "shape_text v"; cases "dtype_text v") (simp_all add: format_value_def)
      next
        case n1: False
        show ?thesis
        proof (cases "isinstance_list_tuple v")
          case (Inl e3)
          with a a1 n n1 show ?thesis by (simp add: format_value_def)
        next
          case l: (Inr b3)
          show ?thesis
          proof (cases b3)
            case True
            with a a1 n n1 l show ?thesis
              by (cases "type_name v"; cases "len_of v") (simp_all add: format_value_def)
          next
            case l1: False
            show ?thesis
            proof (cases "isinstance_dict v")
              case (Inl e4)
              with a a1 n n1 l l1 show ?thesis by (simp add: format_value_def)
            next
              case d: (Inr b4)
              show ?thesis
              proof (cases b4)
                case True
                show ?thesis
                proof (cases "keys_of v")
                  case (Inl e5)
                  with a a1 n n1 l l1 d True show ?thesis by (simp add: format_value_def)
                next
                  case (Inr ks)
                  with a a1 n n1 l l1 d True show ?thesis
                    by (cases "in_order ks") (simp_all add: format_value_def)
                qed
              next
                case d1: False
                show ?thesis
                proof (cases "hasattr_dict v")
                  case (Inl e6)
                  with a a1 n n1 l l1 d d1 show ?thesis by (simp add: format_value_def)
                next
                  case h: (Inr b5)
                  with a a1 n n1 l l1 d d1 show ?thesis
                    by (cases b5; cases "class_name v") (simp_all add: format_value_def)
                qed
              qed
            qed
          qed
        qed
      qed
    qed
  qed
qed

subsection \<open>The exception of the wrapped function is raised again (C3)\<close>




subsection \<open>The two log files are written one after the other (C4)\<close>

text \<open>
  C4 says that in every log-write step a failure on one of the two files does not
  prevent the write to the other, and that a write error on the first file still leaves
  the second written. The loop over the two paths has no handler inside: when the
  \<^verbatim>\<open>open\<close> of the global file fails in the entry step of \<^verbatim>\<open>count(2, 3)\<close>, the
  wrapper raises that error and the file of the function is never created.
\<close>

theorem second_file_not_written_counterexample:
  "fst (wrapper env0 f_count [py_int 2, py_int 3] [] world_fault1) =
     Inl (Exn True ''PermissionError'' (Inr ''[Errno 13] Permission denied'')) \<and>
   fs_files (snd (wrapper env0 f_count [py_int 2, py_int 3] [] world_fault1))
     (func_log_file env0 f_count) = None"
proof -
  have gf: "func_getfile f_count = Inr ''/app/calc.py''" by (simp add: f_count_def)
  have d: "''logs'' \<in> fs_dirs world_fault1" by (simp add: world_fault1_def world0_def)
  have f: "io_faults world_fault1 = Some denied # []" by (simp add: world_fault1_def)
  from enter_open_fails [OF d gf format_2_3 f, of env0]
  have e: "enter env0 f_count [py_int 2, py_int 3] [] world_fault1 =
             (Inl (raised denied), world_fault1\<lparr>io_faults := []\<rparr>)" .
  then have "wrapper env0 f_count [py_int 2, py_int 3] [] world_fault1 =
             (Inl (raised denied), world_fault1\<lparr>io_faults := []\<rparr>)"
    by (simp add: wrapper_def)
  then show ?thesis by (simp add: denied_def world_fault1_def world0_def)
qed

text \<open>
  C4 as amended: the two files are written in order, the global file first. If the
  \<^verbatim>\<open>with\<close> block of the first file raises, the step ends with that exception and the
  second file is left as it was. If the first block goes through and the block of the
  second file raises, the step ends with that exception and the first file holds the
  whole block after its earlier content.
\<close>

theorem write_logs_stops_at_first_failure:
  "(fst (append_lines p ls w) = Inl e \<and> p \<noteq> q \<longrightarrow>
      fst (write_logs [p, q] ls w) = Inl e \<and>
      fs_files (snd (write_logs [p, q] ls w)) q = fs_files w q) \<and>
   (fst (append_lines p ls w) = Inr () \<and>
    fst (append_lines q ls (snd (append_lines p ls w))) = Inl e \<and> p \<noteq> q \<longrightarrow>
      fst (write_logs [p, q] ls w) = Inl e \<and>
      file_text (snd (write_logs [p, q] ls w)) p = file_text w p @ written_text ls)"
proof -
  obtain r1 w1 where a: "append_lines p ls w = (r1, w1)" by (cases "append_lines p ls w")
  obtain r2 w2 where b: "append_lines q ls w1 = (r2, w2)" by (cases "append_lines q ls w1")
  have first: "fst (append_lines p ls w) = Inl e \<and> p \<noteq> q \<longrightarrow>
      fst (write_logs [p, q] ls w) = Inl e \<and>
      fs_files (snd (write_logs [p, q] ls w)) q = fs_files w q"
  proof
    assume h: "fst (append_lines p ls w) = Inl e \<and> p \<noteq> q"
    with a have r1: "r1 = Inl e" by simp
    from h have "q \<noteq> p" by auto
    from append_lines_other [OF a this] a r1
    show "fst (write_logs [p, q] ls w) = Inl e \<and>
      fs_files (snd (write_logs [p, q] ls w)) q = fs_files w q" by simp
  qed
  have second: "fst (append_lines p ls w) = Inr () \<and>
    fst (append_lines q ls (snd (append_lines p ls w))) = Inl e \<and> p \<noteq> q \<longrightarrow>
      fst (write_logs [p, q] ls w) = Inl e \<and>
      file_text (snd (write_logs [p, q] ls w)) p = file_text w p @ written_text ls"
  proof
    assume h: "fst (append_lines p ls w) = Inr () \<and>
      fst (append_lines q ls (snd (append_lines p ls w))) = Inl e \<and> p \<noteq> q"
    with a b have r1: "r1 = Inr ()" and r2: "r2 = Inl e" and pq: "p \<noteq> q" by simp_all
    from a r1 have p1: "file_text w1 p = file_text w p @ written_text ls"
      by (simp add: append_lines_written)
    from append_lines_other [OF b pq] have "file_text w2 p = file_text w1 p"
      by (simp add: file_text_def)
    with p1 a b r1 r2
    show "fst (write_logs [p, q] ls w) = Inl e \<and>
      file_text (snd (write_logs [p, q] ls w)) p = file_text w p @ written_text ls" by simp
  qed
  from first second show ?thesis by blast
qed

theorem write_logs_stops_at_first_failure_witness:
  "fst (append_lines ''a.log'' [''x''] world_fault1) = Inl (raised denied) \<and>
   ''a.log'' \<noteq> ''b.log'' \<and>
   fst (write_logs [''a.log'', ''b.log''] [''x''] world_fault1) = Inl (raised denied) \<and>
   fs_files (snd (write_logs [''a.log'', ''b.log''] [''x''] world_fault1)) ''b.log'' = None \<and>
   fst (append_lines ''a.log'' [''x''] (world0\<lparr>io_faults := replicate 4 None @ [Some disk_full]\<rparr>)) = Inr () \<and>
   fst (append_lines ''b.log'' [''x'']
          (snd (append_lines ''a.log'' [''x''] (world0\<lparr>io_faults := replicate 4 None @ [Some disk_full]\<rparr>))))
     = Inl (raised disk_full) \<and>
   fst (write_logs [''a.log'', ''b.log''] [''x''] (world0\<lparr>io_faults := replicate 4 None @ [Some disk_full]\<rparr>))
     = Inl (raised disk_full) \<and>
   file_text (snd (write_logs [''a.log'', ''b.log''] [''x'']
                     (world0\<lparr>io_faults := replicate 4 None @ [Some disk_full]\<rparr>))) ''a.log''
     = written_text [''x'']"
proof -
  let ?w = "world0\<lparr>io_faults := replicate 4 None @ [Some disk_full]\<rparr>"
  have f1: "io_faults world_fault1 = Some denied # []" by (simp add: world_fault1_def)
  from append_lines_open_fails [OF f1]
  have h1: "fst (append_lines ''a.log'' [''x''] world_fault1) = Inl (raised denied)" by simp
  have h2: "''a.log'' \<noteq> ''b.log''" by simp
  have "io_faults ?w = replicate (2 * length [''x''] + 2) None @ [Some disk_full]" by simp
  from append_lines_scheduled [OF this, of "''a.log''"]
  have h3: "fst (append_lines ''a.log'' [''x''] ?w) = Inr ()"
    and f3: "io_faults (snd (append_lines ''a.log'' [''x''] ?w)) = Some disk_full # []" by simp_all
  from append_lines_open_fails [OF f3]
  have h4: "fst (append_lines ''b.log'' [''x''] (snd (append_lines ''a.log'' [''x''] ?w))) = Inl (raised disk_full)"
    by simp
  have n: "fs_files world_fault1 ''b.log'' = None" by (simp add: world_fault1_def world0_def)
  have t: "file_text ?w ''a.log'' = []" by (simp add: file_text_def world0_def)
  from write_logs_stops_at_first_failure [of "''a.log''" "[''x'']" world_fault1 "raised denied" "''b.log''"] h1 h2 n
  have c1: "fst (write_logs [''a.log'', ''b.log''] [''x''] world_fault1) = Inl (raised denied) \<and>
   fs_files (snd (write_logs [''a.log'', ''b.log''] [''x''] world_fault1)) ''b.log'' = None"
    by simp
  from write_logs_stops_at_first_failure [of "''a.log''" "[''x'']" ?w "raised disk_full" "''b.log''"] h2 h3 h4 t
  have c2: "fst (write_logs [''a.log'', ''b.log''] [''x''] ?w) = Inl (raised disk_full) \<and>
   file_text (snd (write_logs [''a.log'', ''b.log''] [''x''] ?w)) ''a.log'' = written_text [''x'']"
    by simp
  from h1 h2 h3 h4 c1 c2 show ?thesis by blast
qed

subsection \<open>Nested calls in the completion block (C5)\<close>




subsection \<open>A formatting failure at entry (C6)\<close>

text \<open>
  C6 says that whenever formatting the arguments raises partway, the wrapper puts a
  placeholder in place of the whole argument set instead of propagating the error, and
  the wrapped function is still called. Two invocations of \<^verbatim>\<open>count\<close> show otherwise.
  With a second argument whose \<^verbatim>\<open>__str__\<close> raises \<^verbatim>\<open>RuntimeError\<close>, the placeholder
  is substituted, but the entry block is written with no handler: when its \<^verbatim>\<open>open\<close>
  fails the wrapper raises that error and nothing was printed, the function was not
  called. With a second argument whose \<^verbatim>\<open>__str__\<close> raises \<^verbatim>\<open>KeyboardInterrupt\<close>,
  \<^verbatim>\<open>except Exception\<close> does not catch it: it leaves the wrapper at once.
\<close>

theorem entry_failure_counterexample:
  "format_all [py_int 2, unprintable] [] = Inl (Exn True ''RuntimeError'' (Inr ''no text'')) \<and>
   run_outcome (call_target f_count [py_int 2, unprintable] []
       (snd (enter env0 f_count [py_int 2, unprintable] [] world_fault1))) = Inr (py_int 2) \<and>
   fst (wrapper env0 f_count [py_int 2, unprintable] [] world_fault1) =
     Inl (Exn True ''PermissionError'' (Inr ''[Errno 13] Permission denied'')) \<and>
   console (snd (wrapper env0 f_count [py_int 2, unprintable] [] world_fault1)) = [] \<and>
   format_all [py_int 2, interrupted] [] = Inl (Exn False ''KeyboardInterrupt'' (Inr [])) \<and>
   wrapper env0 f_count [py_int 2, interrupted] [] world0 =
     (Inl (Exn False ''KeyboardInterrupt'' (Inr [])), world0)"
proof -
  have gf: "func_getfile f_count = Inr ''/app/calc.py''" by (simp add: f_count_def)
  have d: "''logs'' \<in> fs_dirs world_fault1" by (simp add: world_fault1_def world0_def)
  have f: "io_faults world_fault1 = Some denied # []" by (simp add: world_fault1_def)
  from format_2_thing have fa: "format_args [py_int 2, unprintable] [] =
      Inr ([''<error formatting args>''], [(''error'', ''no text'')])" by simp
  from enter_open_fails [OF d gf fa f, of env0]
  have "wrapper env0 f_count [py_int 2, unprintable] [] world_fault1 =
             (Inl (raised denied), world_fault1\<lparr>io_faults := []\<rparr>)"
    by (simp add: wrapper_def)
  with format_2_thing have first:
    "format_all [py_int 2, unprintable] [] = Inl (Exn True ''RuntimeError'' (Inr ''no text'')) \<and>
     run_outcome (call_target f_count [py_int 2, unprintable] []
       (snd (enter env0 f_count [py_int 2, unprintable] [] world_fault1))) = Inr (py_int 2) \<and>
     fst (wrapper env0 f_count [py_int 2, unprintable] [] world_fault1) =
       Inl (Exn True ''PermissionError'' (Inr ''[Errno 13] Permission denied'')) \<and>
     console (snd (wrapper env0 f_count [py_int 2, unprintable] [] world_fault1)) = []"
    by (simp add: denied_def world_fault1_def world0_def count_run no_text_def)
  have fi: "format_all [py_int 2, interrupted] [] = Inl interrupt" by code_simp
  then have "format_args [py_int 2, interrupted] [] = Inl interrupt"
    by (simp add: format_args_def interrupt_def)
  then have "enter env0 f_count [py_int 2, interrupted] [] world0 = (Inl interrupt, world0)"
    by (simp add: enter_def ensure_log_dir_def world0_facts gf)
  then have "wrapper env0 f_count [py_int 2, interrupted] [] world0 = (Inl interrupt, world0)"
    by (simp add: wrapper_def)
  with fi first show ?thesis by (simp add: interrupt_def)
qed

text \<open>
  C6 as amended: when formatting the arguments raises an \<^verbatim>\<open>Exception\<close> \<open>e\<close> whose
  \<^verbatim>\<open>str\<close> returns \<open>m\<close>, the formatted arguments are the list
  \<^verbatim>\<open>['<error formatting args>']\<close> and the mapping \<^verbatim>\<open>{'error': m}\<close>. When the entry
  block is then written, both files end with the entry block built from these two,
  shown in its \<^verbatim>\<open>[ARGS]\<close> line if there are positional arguments and in its
  \<^verbatim>\<open>[KWARGS]\<close> line if there are keyword arguments; the wrapper goes on to the call
  with the original arguments, and returns the value of the function when the
  completion block is written.
\<close>

theorem format_failure_gives_sentinel:
  assumes "format_all args kwargs = Inl e" and "is_Exception e" and "exn_str e = Inr m"
    and "fst (enter env func args kwargs w) = Inr ()"
  shows "format_args args kwargs = Inr ([''<error formatting args>''], [(''error'', m)]) \<and>
         (\<exists>func_path. func_getfile func = Inr func_path \<and>
            file_text (snd (enter env func args kwargs w)) (log_file env) =
              file_text w (log_file env)
              @ written_text (log_entry env func func_path args kwargs
                                [''<error formatting args>''] [(''error'', m)]) \<and>
            file_text (snd (enter env func args kwargs w)) (func_log_file env func) =
              file_text w (func_log_file env func)
              @ written_text (log_entry env func func_path args kwargs
                                [''<error formatting args>''] [(''error'', m)]) \<and>
            log_entry env func func_path args kwargs [''<error formatting args>''] [(''error'', m)] ! 5 =
              ''[ARGS] '' @ (if args \<noteq> [] then list_text [repr_str ''<error formatting args>''] else ''None'') \<and>
            log_entry env func func_path args kwargs [''<error formatting args>''] [(''error'', m)] ! 6 =
              ''[KWARGS] '' @ (if kwargs \<noteq> [] then dict_text [(''error'', m)] else ''None'')) \<and>
         wrapper env func args kwargs w =
           execute env func args kwargs (snd (enter env func args kwargs w)) \<and>
         (\<forall>v. run_outcome (call_target func args kwargs (snd (enter env func args kwargs w))) = Inr v \<and>
              fst (complete env func (call_target func args kwargs (snd (enter env func args kwargs w))) v) = Inr ()
              \<longrightarrow> fst (wrapper env func args kwargs w) = Inr v)"
proof -
  from assms(1,2,3) have fa:
    "format_args args kwargs = Inr ([''<error formatting args>''], [(''error'', m)])"
    by (simp add: format_args_def)
  from enter_written [OF assms(4)] fa have files:
    "\<exists>func_path. func_getfile func = Inr func_path \<and>
            file_text (snd (enter env func args kwargs w)) (log_file env) =
              file_text w (log_file env)
              @ written_text (log_entry env func func_path args kwargs
                                [''<error formatting args>''] [(''error'', m)]) \<and>
            file_text (snd (enter env func args kwargs w)) (func_log_file env func) =
              file_text w (func_log_file env func)
              @ written_text (log_entry env func func_path args kwargs
                                [''<error formatting args>''] [(''error'', m)]) \<and>
            log_entry env func func_path args kwargs [''<error formatting args>''] [(''error'', m)] ! 5 =
              ''[ARGS] '' @ (if args \<noteq> [] then list_text [repr_str ''<error formatting args>''] else ''None'') \<and>
            log_entry env func func_path args kwargs [''<error formatting args>''] [(''error'', m)] ! 6 =
              ''[KWARGS] '' @ (if kwargs \<noteq> [] then dict_text [(''error'', m)] else ''None'')"
    by (auto simp: log_entry_def)
  have ex: "wrapper env func args kwargs w =
           execute env func args kwargs (snd (enter env func args kwargs w))"
    using assms(4) by (rule wrapper_entered)
  have ret: "\<forall>v. run_outcome (call_target func args kwargs (snd (enter env func args kwargs w))) = Inr v \<and>
              fst (complete env func (call_target func args kwargs (snd (enter env func args kwargs w))) v) = Inr ()
              \<longrightarrow> fst (wrapper env func args kwargs w) = Inr v"
    using wrapper_returned [OF assms(4)] by simp
  from fa files ex ret show ?thesis by blast
qed

theorem format_failure_gives_sentinel_witness:
  "format_all [py_int 2, unprintable] [] = Inl no_text \<and>
   is_Exception no_text \<and> exn_str no_text = Inr ''no text'' \<and>
   fst (enter env0 f_count [py_int 2, unprintable] [] world0) = Inr () \<and>
   format_args [py_int 2, unprintable] [] =
     Inr ([''<error formatting args>''], [(''error'', ''no text'')]) \<and>
   run_outcome (call_target f_count [py_int 2, unprintable] []
       (snd (enter env0 f_count [py_int 2, unprintable] [] world0))) = Inr (py_int 2) \<and>
   fst (complete env0 f_count (call_target f_count [py_int 2, unprintable] []
       (snd (enter env0 f_count [py_int 2, unprintable] [] world0))) (py_int 2)) = Inr () \<and>
   fst (wrapper env0 f_count [py_int 2, unprintable] [] world0) = Inr (py_int 2)"
proof -
  let ?args = "[py_int 2, unprintable]"
  let ?w1 = "snd (enter env0 f_count ?args [] world0)"
  let ?r = "call_target f_count ?args [] ?w1"
  have gf: "func_getfile f_count = Inr ''/app/calc.py''" by (simp add: f_count_def)
  from format_2_thing have h1: "format_all ?args [] = Inl no_text"
    and fa: "format_args ?args [] = Inr ([''<error formatting args>''], [(''error'', ''no text'')])"
    by simp_all
  have h2: "is_Exception no_text" and h3: "exn_str no_text = Inr ''no text''"
    by (simp_all add: no_text_def)
  from enter_nofault [OF world0_facts(1) gf fa world0_facts(2), of env0]
  have h4: "fst (enter env0 f_count ?args [] world0) = Inr ()" and nf: "io_faults ?w1 = []"
    by simp_all
  have h5: "run_outcome ?r = Inr (py_int 2)" by (simp add: count_run)
  from nf have "io_faults ((run_world ?r)\<lparr>trace_fn := None\<rparr>) = []" by (simp add: count_run)
  then have h6: "fst (complete env0 f_count ?r (py_int 2)) = Inr ()"
    by (simp add: complete_def result_repr_ints write_logs_nofault)
  from format_failure_gives_sentinel [OF h1 h2 h3 h4] h5 h6
  have "fst (wrapper env0 f_count ?args [] world0) = Inr (py_int 2)" by blast
  with h1 h2 h3 h4 h5 h6 fa show ?thesis by blast
qed

subsection \<open>The result of the wrapped function (C7)\<close>

text \<open>
  C7 says that whenever the wrapped function returns normally, the wrapper returns its
  value. The completion block is written inside the \<^verbatim>\<open>try\<close>, before \<^verbatim>\<open>return result\<close>:
  when \<^verbatim>\<open>count(2, 3)\<close> has returned 2 and the \<^verbatim>\<open>open\<close> for the completion block
  fails, the caller gets that error.
\<close>

theorem result_lost_counterexample:
  "run_outcome (call_target f_count [py_int 2, py_int 3] []
       (snd (enter env0 f_count [py_int 2, py_int 3] [] world_fault_once))) = Inr (py_int 2) \<and>
   fst (wrapper env0 f_count [py_int 2, py_int 3] [] world_fault_once) =
     Inl (Exn True ''OSError'' (Inr ''[Errno 28] No space left on device''))"
proof -
  let ?args = "[py_int 2, py_int 3]"
  let ?w1 = "snd (enter env0 f_count ?args [] world_fault_once)"
  let ?r = "call_target f_count ?args [] ?w1"
  have d: "''logs'' \<in> fs_dirs world_fault_once" by (simp add: world_fault_once_def world0_def)
  have f: "io_faults world_fault_once = replicate 36 None @ [Some disk_full]"
    by (simp add: world_fault_once_def)
  from count_enter_scheduled [OF d f]
  have ent: "fst (enter env0 f_count ?args [] world_fault_once) = Inr ()"
    and f1: "io_faults ?w1 = Some disk_full # []" by simp_all
  have out: "run_outcome ?r = Inr (py_int 2)" by (simp add: count_run)
  from count_completion_open_fails [OF f1]
  have c: "complete env0 f_count ?r (py_int 2) =
             (Inl (raised disk_full), ?w1\<lparr>trace_fn := None, io_faults := []\<rparr>)" .
  then have cf: "fst (complete env0 f_count ?r (py_int 2)) = Inl (raised disk_full)" by simp
  have "io_faults (?w1\<lparr>trace_fn := None, io_faults := []\<rparr>) = []" by simp
  then have "fst (write_logs (log_paths env0 f_count)
                (error_entry env0 f_count (raised disk_full) ''[Errno 28] No space left on device'')
                (?w1\<lparr>trace_fn := None, io_faults := []\<rparr>)) = Inr ()"
    by (simp add: write_logs_nofault)
  from on_exception_written [OF _ _ this] wrapper_completion_failed [OF ent out cf] c
  have "fst (wrapper env0 f_count ?args [] world_fault_once) = Inl (raised disk_full)"
    by (simp add: disk_full_def)
  with out show ?thesis by (simp add: disk_full_def)
qed

text \<open>
  C7 as amended: when the wrapped function returns \<open>v\<close> and the completion block is
  written to both files, the wrapper returns \<open>v\<close> unchanged.
\<close>

theorem wrapper_returns_result_when_logged:
  assumes "fst (enter env func args kwargs w) = Inr ()"
    and "run_outcome (call_target func args kwargs (snd (enter env func args kwargs w))) = Inr v"
    and "fst (complete env func (call_target func args kwargs (snd (enter env func args kwargs w))) v) = Inr ()"
  shows "wrapper env func args kwargs w =
           (Inr v, snd (complete env func (call_target func args kwargs (snd (enter env func args kwargs w))) v))"
  using assms by (rule wrapper_returned)

theorem wrapper_returns_result_when_logged_witness:
  "fst (enter env0 f_count [py_int 2, py_int 3] [] world0) = Inr () \<and>
   run_outcome (call_target f_count [py_int 2, py_int 3] []
       (snd (enter env0 f_count [py_int 2, py_int 3] [] world0))) = Inr (py_int 2) \<and>
   fst (complete env0 f_count (call_target f_count [py_int 2, py_int 3] []
       (snd (enter env0 f_count [py_int 2, py_int 3] [] world0))) (py_int 2)) = Inr () \<and>
   fst (wrapper env0 f_count [py_int 2, py_int 3] [] world0) = Inr (py_int 2)"
proof -
  let ?args = "[py_int 2, py_int 3]"
  let ?w1 = "snd (enter env0 f_count ?args [] world0)"
  let ?r = "call_target f_count ?args [] ?w1"
  have gf: "func_getfile f_count = Inr ''/app/calc.py''" by (simp add: f_count_def)
  from enter_nofault [OF world0_facts(1) gf format_2_3 world0_facts(2), of env0]
  have h1: "fst (enter env0 f_count ?args [] world0) = Inr ()" and nf: "io_faults ?w1 = []"
    by simp_all
  have h2: "run_outcome ?r = Inr (py_int 2)" by (simp add: count_run)
  from nf have "io_faults ((run_world ?r)\<lparr>trace_fn := None\<rparr>) = []" by (simp add: count_run)
  then have h3: "fst (complete env0 f_count ?r (py_int 2)) = Inr ()"
    by (simp add: complete_def result_repr_ints write_logs_nofault)
  from wrapper_returns_result_when_logged [OF h1 h2 h3]
  have "fst (wrapper env0 f_count ?args [] world0) = Inr (py_int 2)" by simp
  with h1 h2 h3 show ?thesis by blast
qed

subsection \<open>Formatting a mapping (C8)\<close>

text \<open>
  C8 says that \<^verbatim>\<open>format_value\<close> dispatches on the shape of the value, the first
  match winning, and that for every mapping it returns \<^verbatim>\<open>dict(keys=...)\<close> with the
  list of the keys. The list of keys is rendered with the \<^verbatim>\<open>repr\<close> of each key, which
  can raise: for the mapping \<^verbatim>\<open>{Thing(): 1}\<close> whose key has a raising \<^verbatim>\<open>__repr__\<close>,
  \<^verbatim>\<open>format_value\<close> raises.
\<close>

theorem unprintable_key_counterexample:
  "isinstance_dict dict_thing = Inr True \<and>
   format_value dict_thing = Inl (Exn True ''RuntimeError'' (Inr ''no text''))"
  by code_simp

text \<open>
  C8 as amended: the first test of the chain that holds decides, whatever the later
  tests would answer: \<^verbatim>\<open>ArgumentParser()\<close> for an \<^verbatim>\<open>ArgumentParser\<close>; for an
  \<^verbatim>\<open>ndarray\<close> its shape and dtype; for a \<^verbatim>\<open>list\<close> or \<^verbatim>\<open>tuple\<close> the name of its type
  and its length; for a mapping whose keys all have a \<^verbatim>\<open>repr\<close>,
  \<^verbatim>\<open>dict(keys=[...])\<close> with these texts in the order of the keys, separated by a comma
  and a space; for another object with a \<^verbatim>\<open>__dict__\<close> the name of its class; for
  anything else its \<^verbatim>\<open>str\<close>. In particular \<^verbatim>\<open>{"a": 1, "b": 2}\<close> gives
  \<^verbatim>\<open>dict(keys=['a', 'b'])\<close>.
\<close>

theorem format_value_dict:
  "(isinstance_ArgumentParser v = Inr True \<longrightarrow> format_value v = Inr ''ArgumentParser()'') \<and>
   (isinstance_ArgumentParser v = Inr False \<longrightarrow>
      (isinstance_ndarray v = Inr True \<and> shape_text v = Inr sh \<and> dtype_text v = Inr dt \<longrightarrow>
         format_value v = Inr (''ndarray(shape='' @ sh @ '', dtype='' @ dt @ '')'')) \<and>
      (isinstance_ndarray v = Inr False \<longrightarrow>
         (isinstance_list_tuple v = Inr True \<and> type_name v = Inr tn \<and> len_of v = Inr n \<longrightarrow>
            format_value v = Inr (tn @ ''(len='' @ show_nat n @ '')'')) \<and>
         (isinstance_list_tuple v = Inr False \<longrightarrow>
            (isinstance_dict v = Inr True \<and> keys_of v = Inr ks \<and> in_order ks = Inr rs \<longrightarrow>
               format_value v = Inr (''dict(keys=['' @ str_join '', '' rs @ ''])'')) \<and>
            (isinstance_dict v = Inr False \<longrightarrow>
               (hasattr_dict v = Inr True \<and> class_name v = Inr cn \<longrightarrow>
                  format_value v = Inr (cn @ ''()'')) \<and>
               (hasattr_dict v = Inr False \<longrightarrow> format_value v = str_of v))))) \<and>
   (in_order (map (\<lambda>(k, x). repr_of k) kvs) = Inr rs' \<longrightarrow>
      format_value (py_dict kvs) = Inr (''dict(keys=['' @ str_join '', '' rs' @ ''])'')) \<and>
   format_value dict_ab = Inr (''dict(keys=['' @ [squote] @ ''a'' @ [squote] @ '', ''
                                 @ [squote] @ ''b'' @ [squote] @ ''])'')"
proof -
  have chain:
   "(isinstance_ArgumentParser v = Inr True \<longrightarrow> format_value v = Inr ''ArgumentParser()'') \<and>
   (isinstance_ArgumentParser v = Inr False \<longrightarrow>
      (isinstance_ndarray v = Inr True \<and> shape_text v = Inr sh \<and> dtype_text v = Inr dt \<longrightarrow>
         format_value v = Inr (''ndarray(shape='' @ sh @ '', dtype='' @ dt @ '')'')) \<and>
      (isinstance_ndarray v = Inr False \<longrightarrow>
         (isinstance_list_tuple v = Inr True \<and> type_name v = Inr tn \<and> len_of v = Inr n \<longrightarrow>
            format_value v = Inr (tn @ ''(len='' @ show_nat n @ '')'')) \<and>
         (isinstance_list_tuple v = Inr False \<longrightarrow>
            (isinstance_dict v = Inr True \<and> keys_of v = Inr ks \<and> in_order ks = Inr rs \<longrightarrow>
               format_value v = Inr (''dict(keys=['' @ str_join '', '' rs @ ''])'')) \<and>
            (isinstance_dict v = Inr False \<longrightarrow>
               (hasattr_dict v = Inr True \<and> class_name v = Inr cn \<longrightarrow>
                  format_value v = Inr (cn @ ''()'')) \<and>
               (hasattr_dict v = Inr False \<longrightarrow> format_value v = str_of v)))))"
    by (simp add: format_value_def list_text_def)
  have builtin: "in_order (map (\<lambda>(k, x). repr_of k) kvs) = Inr rs' \<longrightarrow>
      format_value (py_dict kvs) = Inr (''dict(keys=['' @ str_join '', '' rs' @ ''])'')"
    by (simp add: format_value_def list_text_def py_dict_def plain_def)
  have ab: "format_value dict_ab = Inr (''dict(keys=['' @ [squote] @ ''a'' @ [squote] @ '', ''
                                 @ [squote] @ ''b'' @ [squote] @ ''])'')"
    by code_simp
  from chain builtin ab show ?thesis by blast
qed

theorem format_value_dict_witness:
  "isinstance_ArgumentParser options_ab = Inr False \<and> isinstance_ndarray options_ab = Inr False \<and>
   isinstance_list_tuple options_ab = Inr False \<and> isinstance_dict options_ab = Inr True \<and>
   keys_of options_ab = Inr [Inr (repr_str ''a''), Inr (repr_str ''b'')] \<and>
   in_order [Inr (repr_str ''a''), Inr (repr_str ''b'') :: exn + string] = Inr [repr_str ''a'', repr_str ''b''] \<and>
   hasattr_dict options_ab = Inr True \<and>
   format_value options_ab = Inr (''dict(keys=['' @ repr_str ''a'' @ '', '' @ repr_str ''b'' @ ''])'') \<and>
   isinstance_ArgumentParser (options_ab\<lparr>isinstance_ArgumentParser := Inr True\<rparr>) = Inr True \<and>
   isinstance_dict (options_ab\<lparr>isinstance_ArgumentParser := Inr True\<rparr>) = Inr True \<and>
   format_value (options_ab\<lparr>isinstance_ArgumentParser := Inr True\<rparr>) = Inr ''ArgumentParser()'' \<and>
   isinstance_ndarray (options_ab\<lparr>isinstance_ndarray := Inr True, shape_text := Inr ''(2, 3)'',
                                  dtype_text := Inr ''float64''\<rparr>) = Inr True \<and>
   format_value (options_ab\<lparr>isinstance_ndarray := Inr True, shape_text := Inr ''(2, 3)'',
                            dtype_text := Inr ''float64''\<rparr>) = Inr ''ndarray(shape=(2, 3), dtype=float64)'' \<and>
   isinstance_list_tuple (py_tuple [py_int 1, py_int 2]) = Inr True \<and>
   type_name (py_tuple [py_int 1, py_int 2]) = Inr ''tuple'' \<and>
   len_of (py_tuple [py_int 1, py_int 2]) = Inr 2 \<and>
   format_value (py_tuple [py_int 1, py_int 2]) = Inr ''tuple(len=2)'' \<and>
   isinstance_dict (py_int 7) = Inr False \<and> hasattr_dict (py_int 7) = Inr False \<and>
   format_value (py_int 7) = Inr ''7'' \<and>
   hasattr_dict ((py_int 7)\<lparr>hasattr_dict := Inr True, class_name := Inr ''Point''\<rparr>) = Inr True \<and>
   format_value ((py_int 7)\<lparr>hasattr_dict := Inr True, class_name := Inr ''Point''\<rparr>) = Inr ''Point()'' \<and>
   in_order (map (\<lambda>(k, x). repr_of k) [(py_text ''a'', py_int 1), (py_text ''b'', py_int 2)]) =
     Inr [repr_str ''a'', repr_str ''b''] \<and>
   format_value (py_dict [(py_text ''a'', py_int 1), (py_text ''b'', py_int 2)]) =
     Inr (''dict(keys=['' @ repr_str ''a'' @ '', '' @ repr_str ''b'' @ ''])'')"
proof -
  have o: "isinstance_ArgumentParser options_ab = Inr False" "isinstance_ndarray options_ab = Inr False"
    "isinstance_list_tuple options_ab = Inr False" "isinstance_dict options_ab = Inr True"
    "keys_of options_ab = Inr [Inr (repr_str ''a''), Inr (repr_str ''b'')]"
    "hasattr_dict options_ab = Inr True"
    by (simp_all add: options_ab_def dict_ab_def py_dict_def plain_def py_text_def)
  have io: "in_order [Inr (repr_str ''a''), Inr (repr_str ''b'') :: exn + string] = Inr [repr_str ''a'', repr_str ''b'']"
    by simp
  from format_value_dict [where v = options_ab and ks = "[Inr (repr_str ''a''), Inr (repr_str ''b'')]"
         and rs = "[repr_str ''a'', repr_str ''b'']"] o io
  have p1: "format_value options_ab = Inr (''dict(keys=['' @ repr_str ''a'' @ '', '' @ repr_str ''b'' @ ''])'')"
    by simp
  let ?ap = "options_ab\<lparr>isinstance_ArgumentParser := Inr True\<rparr>"
  have ap: "isinstance_ArgumentParser ?ap = Inr True" "isinstance_dict ?ap = Inr True"
    by (simp_all add: o)
  from format_value_dict [where v = ?ap] ap
  have p2: "format_value ?ap = Inr ''ArgumentParser()''" by simp
  let ?nd = "options_ab\<lparr>isinstance_ndarray := Inr True, shape_text := Inr ''(2, 3)'',
                        dtype_text := Inr ''float64''\<rparr>"
  have nd: "isinstance_ArgumentParser ?nd = Inr False" "isinstance_ndarray ?nd = Inr True"
    "shape_text ?nd = Inr ''(2, 3)''" "dtype_text ?nd = Inr ''float64''"
    by (simp_all add: o)
  from format_value_dict [where v = ?nd and sh = "''(2, 3)''" and dt = "''float64''"] nd
  have p3: "format_value ?nd = Inr ''ndarray(shape=(2, 3), dtype=float64)''" by simp
  let ?tu = "py_tuple [py_int 1, py_int 2]"
  have tu: "isinstance_ArgumentParser ?tu = Inr False" "isinstance_ndarray ?tu = Inr False"
    "isinstance_list_tuple ?tu = Inr True" "type_name ?tu = Inr ''tuple''" "len_of ?tu = Inr 2"
    by (simp_all add: py_tuple_def plain_def)
  have two: "show_nat 2 = ''2''" by code_simp
  from format_value_dict [where v = ?tu and tn = "''tuple''" and n = 2] tu
  have p4: "format_value ?tu = Inr ''tuple(len=2)''" by (simp add: two)
  have i7: "isinstance_ArgumentParser (py_int 7) = Inr False" "isinstance_ndarray (py_int 7) = Inr False"
    "isinstance_list_tuple (py_int 7) = Inr False" "isinstance_dict (py_int 7) = Inr False"
    "hasattr_dict (py_int 7) = Inr False"
    by (simp_all add: py_int_def plain_def)
  have s7: "str_of (py_int 7) = Inr ''7''" by code_simp
  from format_value_dict [where v = "py_int 7"] i7 s7
  have p5: "format_value (py_int 7) = Inr ''7''" by simp
  let ?pt = "(py_int 7)\<lparr>hasattr_dict := Inr True, class_name := Inr ''Point''\<rparr>"
  have pt: "isinstance_ArgumentParser ?pt = Inr False" "isinstance_ndarray ?pt = Inr False"
    "isinstance_list_tuple ?pt = Inr False" "isinstance_dict ?pt = Inr False"
    "hasattr_dict ?pt = Inr True" "class_name ?pt = Inr ''Point''"
    by (simp_all add: i7)
  from format_value_dict [where v = ?pt and cn = "''Point''"] pt
  have p6: "format_value ?pt = Inr ''Point()''" by simp
  let ?kvs = "[(py_text ''a'', py_int 1), (py_text ''b'', py_int 2)]"
  have ks: "in_order (map (\<lambda>(k, x). repr_of k) ?kvs) = Inr [repr_str ''a'', repr_str ''b'']"
    by (simp add: py_text_def plain_def)
  from format_value_dict [where kvs = ?kvs and rs' = "[repr_str ''a'', repr_str ''b'']"] ks
  have p7: "format_value (py_dict ?kvs) = Inr (''dict(keys=['' @ repr_str ''a'' @ '', '' @ repr_str ''b'' @ ''])'')"
    by simp
  from o io p1 ap p2 nd p3 tu p4 i7 p5 pt p6 ks p7 show ?thesis by (intro conjI)
qed

subsection \<open>A failure while writing the completion block (C9)\<close>




subsection \<open>No arguments in the entry block (C10)\<close>

text \<open>
  C10: for an invocation with no positional argument the sixth line of the entry block
  is \<^verbatim>\<open>[ARGS] None\<close>, and with no keyword argument the seventh line is
  \<^verbatim>\<open>[KWARGS] None\<close>, whatever the formatted arguments are.
\<close>

theorem no_arguments_logged_as_None:
  "log_entry env func func_path [] kwargs args_repr kwargs_repr ! 5 = ''[ARGS] None'' \<and>
   log_entry env func func_path args [] args_repr kwargs_repr ! 6 = ''[KWARGS] None''"
  by (simp add: log_entry_def)

end
